theory Spec2Isabelle
  imports Main
begin

section \<open>Data model\<close>

text \<open>
  The session store (\<^verbatim>\<open>store/auth\<close>, a zustand store wrapped in the \<^verbatim>\<open>persist\<close>
  middleware) and the HTTP gateway (\<^verbatim>\<open>services/auth.ts\<close>, an axios instance with a
  request and a response interceptor).

  Fields follow the declared TypeScript interfaces. A field of type \<^verbatim>\<open>T | null\<close> is a
  \<open>T option\<close>, \<open>None\<close> being \<^verbatim>\<open>null\<close>.
\<close>

record User =
  user_id :: string
  email :: string
  name :: "string option"
  is_active :: bool
  is_verified :: bool
  created_at :: string

record AuthState =
  user :: "User option"
  token :: "string option"
  isAuthenticated :: bool
  isLoading :: bool
  error :: "string option"

text \<open>What \<^verbatim>\<open>partialize\<close> keeps of the state: the value stored under \<^verbatim>\<open>auth-storage\<close>.\<close>

record snapshot =
  s_user :: "User option"
  s_token :: "string option"
  s_isAuthenticated :: bool

text \<open>
  An outbound request (an axios config): method, url, the JSON fields of its body, the
  \<^verbatim>\<open>Authorization\<close> header (\<open>None\<close> when the header is not set) and the \<^verbatim>\<open>_retry\<close> marker
  the response interceptor puts on it.
\<close>

record request =
  req_method :: string
  url :: string
  req_data :: "(string \<times> string) list"
  authorization :: "string option"
  retry :: bool

text \<open>
  A response body, as far as the client reads it: the store reads \<^verbatim>\<open>.data.user\<close> and
  \<^verbatim>\<open>.data.access_token\<close> of what the service functions return, and \<^verbatim>\<open>.detail\<close> of an error
  response's body when it is a string. \<open>data = None\<close> is a body without a \<^verbatim>\<open>data\<close> key; \<open>b_user\<close> and
  \<open>b_access_token\<close> are keys \<^verbatim>\<open>user\<close> and \<^verbatim>\<open>access_token\<close> at the top level of the body, which
  the client never reads.
\<close>

record payload =
  p_user :: "User option"
  access_token :: "string option"

record body =
  data :: "payload option"
  detail :: "string option"
  b_user :: "User option"
  b_access_token :: "string option"

type_synonym response = "nat \<times> body"

text \<open>
  What a promise rejects with: an axios error carrying the request config and, when the
  server answered, the response; or the \<^verbatim>\<open>TypeError\<close> of reading a property of
  \<^verbatim>\<open>undefined\<close>.
\<close>

datatype rejection = AxiosError request "response option" | TypeError

datatype reply = Response nat body | NetworkFailure

text \<open>The synchronous store actions another task may call while a request is in flight.\<close>

datatype action = CallLogout | CallSetUser User | CallSetToken string | CallClearError

text \<open>
  The world a call runs in: the store's state, the \<^verbatim>\<open>auth-storage\<close> entry of
  \<^verbatim>\<open>localStorage\<close> (\<open>None\<close> when the key is not there), and the requests put on the wire so
  far, each as it was sent.
\<close>

record world =
  state :: AuthState
  storage :: "snapshot option"
  wire :: "request list"

text \<open>
  The environment of the client: the server, which answers a request knowing the requests
  it has received before, and the store actions other tasks perform while the request
  with a given index on the wire is in flight (the client is single-threaded; other tasks
  run only where a call is suspended on the network).
\<close>

record env =
  server :: "request list \<Rightarrow> request \<Rightarrow> reply"
  during :: "nat \<Rightarrow> action list"

section \<open>The session store\<close>

definition initialState :: AuthState where
  "initialState = \<lparr>user = None, token = None, isAuthenticated = False,
                    isLoading = False, error = None\<rparr>"

definition partialize :: "AuthState \<Rightarrow> snapshot" where
  "partialize s = \<lparr>s_user = user s, s_token = token s,
                   s_isAuthenticated = isAuthenticated s\<rparr>"

text \<open>
  \<^verbatim>\<open>set(partial)\<close> under the \<^verbatim>\<open>persist\<close> middleware: the partial state is merged into the
  current state, and the partialized state is written to the storage entry.
\<close>

definition set_state :: "(AuthState \<Rightarrow> AuthState) \<Rightarrow> world \<Rightarrow> world" where
  "set_state f w = w\<lparr>state := f (state w), storage := Some (partialize (f (state w)))\<rparr>"

text \<open>
  The start of the process: the store is created in its initial state and the middleware
  merges the stored snapshot, when there is one, over it.
\<close>

definition rehydrate :: "snapshot option \<Rightarrow> AuthState" where
  "rehydrate st = (case st of
       None \<Rightarrow> initialState
     | Some sn \<Rightarrow> initialState\<lparr>user := s_user sn, token := s_token sn,
                               isAuthenticated := s_isAuthenticated sn\<rparr>)"

definition restore :: "world \<Rightarrow> world" where
  "restore w = w\<lparr>state := rehydrate (storage w)\<rparr>"

definition initialWorld :: world where
  "initialWorld = \<lparr>state = initialState, storage = None, wire = []\<rparr>"

text \<open>\<^verbatim>\<open>logout\<close>: one \<^verbatim>\<open>set\<close> clearing the five fields, then \<^verbatim>\<open>localStorage.removeItem\<close>.\<close>

definition logout :: "world \<Rightarrow> world" where
  "logout w = (set_state (\<lambda>s. s\<lparr>user := None, token := None, isAuthenticated := False,
                                 isLoading := False, error := None\<rparr>) w)\<lparr>storage := None\<rparr>"

definition clearError :: "world \<Rightarrow> world" where
  "clearError w = set_state (\<lambda>s. s\<lparr>error := None\<rparr>) w"

definition setUser :: "User \<Rightarrow> world \<Rightarrow> world" where
  "setUser u w = set_state (\<lambda>s. s\<lparr>user := Some u\<rparr>) w"

definition setToken :: "string \<Rightarrow> world \<Rightarrow> world" where
  "setToken t w = set_state (\<lambda>s. s\<lparr>token := Some t, isAuthenticated := True\<rparr>) w"

text \<open>
  A value is truthy in \<^verbatim>\<open>if (token)\<close>, \<^verbatim>\<open>!token\<close> and \<^verbatim>\<open>x || fallback\<close> when it is a non-empty
  string; \<^verbatim>\<open>null\<close> and the empty string are not.
\<close>

definition truthy :: "string option \<Rightarrow> bool" where
  "truthy x = (case x of None \<Rightarrow> False | Some s \<Rightarrow> s \<noteq> [])"

text \<open>\<^verbatim>\<open>error.response?.data?.detail || fallback\<close>\<close>

definition error_detail :: "rejection \<Rightarrow> string option" where
  "error_detail e = (case e of
       AxiosError c (Some (st, b)) \<Rightarrow> detail b
     | AxiosError c None \<Rightarrow> None
     | TypeError \<Rightarrow> None)"

definition error_message :: "rejection \<Rightarrow> string \<Rightarrow> string" where
  "error_message e fallback =
     (if truthy (error_detail e) then the (error_detail e) else fallback)"

text \<open>The \<^verbatim>\<open>set\<close> calls of \<^verbatim>\<open>login\<close> and \<^verbatim>\<open>register\<close>: on entry, in the try block, in the catch block.\<close>

definition begin_auth :: "world \<Rightarrow> world" where
  "begin_auth w = set_state (\<lambda>s. s\<lparr>isLoading := True, error := None\<rparr>) w"

definition auth_succeeded :: "payload \<Rightarrow> world \<Rightarrow> world" where
  "auth_succeeded p w = set_state (\<lambda>s. s\<lparr>user := p_user p, token := access_token p,
       isAuthenticated := True, isLoading := False, error := None\<rparr>) w"

definition auth_failed :: "string \<Rightarrow> rejection \<Rightarrow> world \<Rightarrow> world" where
  "auth_failed fallback e w = set_state (\<lambda>s. s\<lparr>user := None, token := None,
       isAuthenticated := False, isLoading := False,
       error := Some (error_message e fallback)\<rparr>) w"

text \<open>The \<^verbatim>\<open>set\<close> call of \<^verbatim>\<open>refreshToken\<close>.\<close>

definition token_refreshed :: "payload \<Rightarrow> world \<Rightarrow> world" where
  "token_refreshed p w = set_state (\<lambda>s. s\<lparr>token := access_token p\<rparr>) w"

fun perform :: "action \<Rightarrow> world \<Rightarrow> world" where
  "perform CallLogout w = logout w"
| "perform (CallSetUser u) w = setUser u w"
| "perform (CallSetToken t) w = setToken t w"
| "perform CallClearError w = clearError w"

section \<open>The HTTP gateway\<close>

text \<open>The request interceptor: the header is set when the store's token is truthy.\<close>

definition request_interceptor :: "world \<Rightarrow> request \<Rightarrow> request" where
  "request_interceptor w c =
     (if truthy (token (state w))
      then c\<lparr>authorization := Some (''Bearer '' @ the (token (state w)))\<rparr>
      else c)"

text \<open>
  The template literal \<^verbatim>\<open>`Bearer ${token}`\<close>. \<open>None\<close> is the \<^verbatim>\<open>null\<close> the store's type declares and
  is printed as \<^verbatim>\<open>null\<close>. A success payload without an \<^verbatim>\<open>access_token\<close> key would leave
  \<^verbatim>\<open>undefined\<close> in the store, which the code prints as \<^verbatim>\<open>undefined\<close>; the option type has one
  \<open>None\<close> for both, so what is stated below about the header of a store without a string
  token allows either text.
\<close>

definition bearer :: "string option \<Rightarrow> string" where
  "bearer t = ''Bearer '' @ (case t of None \<Rightarrow> ''null'' | Some s \<Rightarrow> s)"

text \<open>
  Putting a request on the wire: it is recorded, the other tasks run while it is in
  flight, and the server's answer arrives.
\<close>

definition transmit :: "env \<Rightarrow> request \<Rightarrow> world \<Rightarrow> world \<times> reply" where
  "transmit ev c w =
     (fold perform (during ev (length (wire w))) (w\<lparr>wire := wire w @ [c]\<rparr>),
      server ev (wire w) c)"

text \<open>axios resolves with a response of status 2xx and rejects otherwise.\<close>

definition settle :: "request \<Rightarrow> reply \<Rightarrow> rejection + response" where
  "settle c r = (case r of
       Response st b \<Rightarrow> if 200 \<le> st \<and> st < 300 then Inr (st, b)
                        else Inl (AxiosError c (Some (st, b)))
     | NetworkFailure \<Rightarrow> Inl (AxiosError c None))"

definition is_401 :: "rejection \<Rightarrow> bool" where
  "is_401 e = (case e of AxiosError c (Some (st, b)) \<Rightarrow> st = 401 | _ \<Rightarrow> False)"

text \<open>\<^verbatim>\<open>api.post(url, data)\<close>: a new config, with no \<^verbatim>\<open>_retry\<close> marker on it.\<close>

definition post :: "string \<Rightarrow> (string \<times> string) list \<Rightarrow> request" where
  "post u d = \<lparr>req_method = ''post'', url = u, req_data = d, authorization = None,
               retry = False\<rparr>"

text \<open>The service functions return \<^verbatim>\<open>response.data\<close>, the body of the response.\<close>

definition response_data ::
  "(world \<times> (rejection + response)) option \<Rightarrow> (world \<times> (rejection + body)) option" where
  "response_data r = (case r of
       None \<Rightarrow> None
     | Some (w1, Inl err) \<Rightarrow> Some (w1, Inl err)
     | Some (w1, Inr (st, b)) \<Rightarrow> Some (w1, Inr b))"

text \<open>
  \<^verbatim>\<open>api(config)\<close> and the store's \<^verbatim>\<open>refreshToken\<close> call each other: the response interceptor
  of \<^verbatim>\<open>api\<close> awaits \<^verbatim>\<open>refreshToken()\<close>, whose service call \<^verbatim>\<open>api.post('/auth/refresh')\<close> goes
  through the same interceptors (the call is written out in \<open>refreshToken\<close>; it is
  \<open>authService_refreshToken\<close> below). Nothing bounds the depth of these calls, so both take
  fuel, and \<open>None\<close> is a call that has not returned within it.

  In the interceptor the resend is \<^verbatim>\<open>return api(originalRequest)\<close> without \<^verbatim>\<open>await\<close>, so its
  rejection is not caught by the \<^verbatim>\<open>catch\<close> around it.
\<close>

fun api :: "nat \<Rightarrow> env \<Rightarrow> request \<Rightarrow> world \<Rightarrow> (world \<times> (rejection + response)) option"
and refreshToken :: "nat \<Rightarrow> env \<Rightarrow> world \<Rightarrow> (world \<times> (rejection + unit)) option"
where
  "api 0 ev c w = None"
| "api (Suc n) ev c w =
     (let c1 = request_interceptor w c;
          (w1, r) = transmit ev c1 w
      in case settle c1 r of
           Inr resp \<Rightarrow> Some (w1, Inr resp)
         | Inl err \<Rightarrow>
             if is_401 err \<and> \<not> retry c1 then
               (case refreshToken n ev w1 of
                  None \<Rightarrow> None
                | Some (w2, Inl refreshError) \<Rightarrow> Some (logout w2, Inl refreshError)
                | Some (w2, Inr u) \<Rightarrow>
                    api n ev (c1\<lparr>retry := True,
                                 authorization := Some (bearer (token (state w2)))\<rparr>) w2)
             else Some (w1, Inl err))"
| "refreshToken 0 ev w = None"
| "refreshToken (Suc n) ev w =
     (if \<not> truthy (token (state w)) then Some (w, Inr ())
      else case response_data (api n ev (post ''/auth/refresh'' []) w) of
             None \<Rightarrow> None
           | Some (w1, Inl err) \<Rightarrow> Some (logout w1, Inl err)
           | Some (w1, Inr b) \<Rightarrow>
               (case data b of
                  None \<Rightarrow> Some (logout w1, Inl TypeError)
                | Some p \<Rightarrow> Some (token_refreshed p w1, Inr ())))"


definition authService_login ::
  "nat \<Rightarrow> env \<Rightarrow> string \<Rightarrow> string \<Rightarrow> world \<Rightarrow> (world \<times> (rejection + body)) option" where
  "authService_login n ev em pw w =
     response_data (api n ev (post ''/auth/login'' [(''email'', em), (''password'', pw)]) w)"

definition authService_register ::
  "nat \<Rightarrow> env \<Rightarrow> string \<Rightarrow> string \<Rightarrow> string option \<Rightarrow> world
     \<Rightarrow> (world \<times> (rejection + body)) option" where
  "authService_register n ev em pw nm w =
     response_data (api n ev (post ''/auth/register''
       ([(''email'', em), (''password'', pw)] @
        (case nm of None \<Rightarrow> [] | Some x \<Rightarrow> [(''name'', x)]))) w)"

definition authService_refreshToken ::
  "nat \<Rightarrow> env \<Rightarrow> world \<Rightarrow> (world \<times> (rejection + body)) option" where
  "authService_refreshToken n ev w = response_data (api n ev (post ''/auth/refresh'' []) w)"

text \<open>
  \<^verbatim>\<open>login\<close> and \<^verbatim>\<open>register\<close> of the store. The value \<^verbatim>\<open>response\<close> they await is the body the
  service function returned; reading \<^verbatim>\<open>response.data.user\<close> throws a \<^verbatim>\<open>TypeError\<close> inside the
  try block when that body has no \<^verbatim>\<open>data\<close>.
\<close>

definition finish_auth ::
  "string \<Rightarrow> (world \<times> (rejection + body)) option \<Rightarrow> (world \<times> (rejection + unit)) option" where
  "finish_auth fallback r = (case r of
       None \<Rightarrow> None
     | Some (w1, Inl err) \<Rightarrow> Some (auth_failed fallback err w1, Inl err)
     | Some (w1, Inr b) \<Rightarrow>
         (case data b of
            None \<Rightarrow> Some (auth_failed fallback TypeError w1, Inl TypeError)
          | Some p \<Rightarrow> Some (auth_succeeded p w1, Inr ())))"

definition login ::
  "nat \<Rightarrow> env \<Rightarrow> string \<Rightarrow> string \<Rightarrow> world \<Rightarrow> (world \<times> (rejection + unit)) option" where
  "login n ev em pw w =
     finish_auth ''Login failed'' (authService_login n ev em pw (begin_auth w))"

definition register ::
  "nat \<Rightarrow> env \<Rightarrow> string \<Rightarrow> string \<Rightarrow> string option \<Rightarrow> world
     \<Rightarrow> (world \<times> (rejection + unit)) option" where
  "register n ev em pw nm w =
     finish_auth ''Registration failed'' (authService_register n ev em pw nm (begin_auth w))"

text \<open>
  \<^verbatim>\<open>refreshToken\<close> of the store, given what its service call came back with: the \<^verbatim>\<open>set\<close> of
  the try block, or \<^verbatim>\<open>logout\<close> and the rethrow of the catch block.
\<close>

definition finish_refresh ::
  "(world \<times> (rejection + body)) option \<Rightarrow> (world \<times> (rejection + unit)) option" where
  "finish_refresh r = (case r of
       None \<Rightarrow> None
     | Some (w1, Inl err) \<Rightarrow> Some (logout w1, Inl err)
     | Some (w1, Inr b) \<Rightarrow>
         (case data b of
            None \<Rightarrow> Some (logout w1, Inl TypeError)
          | Some p \<Rightarrow> Some (token_refreshed p w1, Inr ())))"

text \<open>
  One pass of a request through the pipeline without the error handler of the response
  interceptor: the request interceptor, the wire, and the promise settled on the status.
\<close>

definition send_once :: "env \<Rightarrow> request \<Rightarrow> world \<Rightarrow> world \<times> (rejection + response)" where
  "send_once ev c w = (let c1 = request_interceptor w c; (w1, r) = transmit ev c1 w
                       in (w1, settle c1 r))"

section \<open>Sequences of store updates\<close>

text \<open>
  Every change of the store is one \<^verbatim>\<open>set\<close> call of one of its operations (or the restore at
  the start of the process), and between two of them no other code touches the store. A
  history of the store is therefore a list of these updates, in the order they happened,
  whichever operations and tasks they belong to.
\<close>

datatype update =
    AuthBegin
  | AuthSucceeded payload
  | AuthFailed string rejection
  | TokenRefreshed payload
  | Logout
  | ClearError
  | SetUser User
  | SetToken string
  | Restore

fun apply_update :: "update \<Rightarrow> world \<Rightarrow> world" where
  "apply_update AuthBegin w = begin_auth w"
| "apply_update (AuthSucceeded p) w = auth_succeeded p w"
| "apply_update (AuthFailed fallback e) w = auth_failed fallback e w"
| "apply_update (TokenRefreshed p) w = token_refreshed p w"
| "apply_update Logout w = logout w"
| "apply_update ClearError w = clearError w"
| "apply_update (SetUser u) w = setUser u w"
| "apply_update (SetToken t) w = setToken t w"
| "apply_update Restore w = restore w"

definition history :: "update list \<Rightarrow> world" where
  "history us = fold apply_update us initialWorld"

text \<open>
  A success payload carries what the HTTP contract promises: \<^verbatim>\<open>user\<close> and \<^verbatim>\<open>access_token\<close> for
  login and register, \<^verbatim>\<open>access_token\<close> for refresh.
\<close>

fun contractual :: "update \<Rightarrow> bool" where
  "contractual (AuthSucceeded p) = (p_user p \<noteq> None \<and> access_token p \<noteq> None)"
| "contractual (TokenRefreshed p) = (access_token p \<noteq> None)"
| "contractual u = True"

fun is_SetToken :: "update \<Rightarrow> bool" where
  "is_SetToken (SetToken t) = True"
| "is_SetToken u = False"

section \<open>Sessions of operation calls\<close>

text \<open>
  The operations of the store as a caller invokes them, one after the other, and the
  restart of the process. A call that has not returned within the fuel gives \<open>None\<close>.
\<close>

datatype call =
    Login string string
  | Register string string "string option"
  | RefreshToken
  | DoLogout
  | DoClearError
  | DoSetUser User
  | DoSetToken string
  | Reload

fun invoke :: "nat \<Rightarrow> env \<Rightarrow> call \<Rightarrow> world \<Rightarrow> world option" where
  "invoke n ev (Login em pw) w = map_option fst (login n ev em pw w)"
| "invoke n ev (Register em pw nm) w = map_option fst (register n ev em pw nm w)"
| "invoke n ev RefreshToken w = map_option fst (refreshToken n ev w)"
| "invoke n ev DoLogout w = Some (logout w)"
| "invoke n ev DoClearError w = Some (clearError w)"
| "invoke n ev (DoSetUser u) w = Some (setUser u w)"
| "invoke n ev (DoSetToken t) w = Some (setToken t w)"
| "invoke n ev Reload w = Some (restore w)"

fun session :: "nat \<Rightarrow> env \<Rightarrow> call list \<Rightarrow> world \<Rightarrow> world option" where
  "session n ev [] w = Some w"
| "session n ev (x # xs) w =
     (case invoke n ev x w of None \<Rightarrow> None | Some w' \<Rightarrow> session n ev xs w')"

text \<open>
  A server that keeps the HTTP contract: a 2xx body with a \<^verbatim>\<open>data\<close> object carries an
  \<^verbatim>\<open>access_token\<close> in it, and a \<^verbatim>\<open>user\<close> as well when it answers a login or a registration.
\<close>

definition server_contractual :: "env \<Rightarrow> bool" where
  "server_contractual ev \<longleftrightarrow>
     (\<forall>h c st b p. server ev h c = Response st b \<longrightarrow> 200 \<le> st \<longrightarrow> st < 300 \<longrightarrow>
        data b = Some p \<longrightarrow>
        access_token p \<noteq> None
        \<and> (url c = ''/auth/login'' \<or> url c = ''/auth/register'' \<longrightarrow> p_user p \<noteq> None))"

fun is_CallSetToken :: "action \<Rightarrow> bool" where
  "is_CallSetToken (CallSetToken t) = True"
| "is_CallSetToken a = False"

fun is_DoSetToken :: "call \<Rightarrow> bool" where
  "is_DoSetToken (DoSetToken t) = True"
| "is_DoSetToken x = False"

section \<open>Concrete sessions, requests and servers\<close>

definition alice :: User where
  "alice = \<lparr>user_id = ''1'', email = ''a@x.com'', name = None, is_active = True,
            is_verified = True, created_at = ''2024-01-01T00:00:00''\<rparr>"

text \<open>A session signed in as \<open>alice\<close> with token \<^verbatim>\<open>T0\<close>, persisted, nothing sent yet.\<close>

definition signed_in :: world where
  "signed_in = \<lparr>state = \<lparr>user = Some alice, token = Some ''T0'', isAuthenticated = True,
                          isLoading = False, error = None\<rparr>,
                storage = Some \<lparr>s_user = Some alice, s_token = Some ''T0'',
                                 s_isAuthenticated = True\<rparr>,
                wire = []\<rparr>"

definition get_me :: request where
  "get_me = \<lparr>req_method = ''get'', url = ''/auth/me'', req_data = [], authorization = None,
             retry = False\<rparr>"

definition empty_body :: body where
  "empty_body = \<lparr>data = None, detail = None, b_user = None, b_access_token = None\<rparr>"

text \<open>The body \<^verbatim>\<open>{data: {user, access_token}}\<close>.\<close>

definition enveloped :: "User option \<Rightarrow> string option \<Rightarrow> body" where
  "enveloped u t = \<lparr>data = Some \<lparr>p_user = u, access_token = t\<rparr>, detail = None,
                    b_user = None, b_access_token = None\<rparr>"

text \<open>The body \<^verbatim>\<open>{user, access_token}\<close>, with no \<^verbatim>\<open>data\<close> around it.\<close>

definition bare :: "User option \<Rightarrow> string option \<Rightarrow> body" where
  "bare u t = \<lparr>data = None, detail = None, b_user = u, b_access_token = t\<rparr>"

text \<open>The body \<^verbatim>\<open>{detail: d}\<close> of an error response.\<close>

definition with_detail :: "string \<Rightarrow> body" where
  "with_detail d = \<lparr>data = None, detail = Some d, b_user = None, b_access_token = None\<rparr>"

text \<open>
  A server that answers the requests it receives with the replies of a script, in order,
  and does not answer once the script is used up; and one that answers 401 to everything.
\<close>

definition scripted :: "reply list \<Rightarrow> request list \<Rightarrow> request \<Rightarrow> reply" where
  "scripted rs h c = (if length h < length rs then rs ! length h else NetworkFailure)"

definition undisturbed :: "reply list \<Rightarrow> env" where
  "undisturbed rs = \<lparr>server = scripted rs, during = (\<lambda>i. [])\<rparr>"

definition rejecting :: env where
  "rejecting = \<lparr>server = (\<lambda>h c. Response 401 empty_body), during = (\<lambda>i. [])\<rparr>"

text \<open>
  The request is refused with 401, the refresh returns the token \<^verbatim>\<open>T2\<close>, the resend is
  answered with 200.
\<close>

definition refreshing :: env where
  "refreshing = undisturbed [Response 401 empty_body,
                             Response 200 (enveloped None (Some ''T2'')),
                             Response 200 (enveloped (Some alice) None)]"

text \<open>The request is refused with 401 and the refresh fails with 500.\<close>

definition refresh_refused :: env where
  "refresh_refused = undisturbed [Response 401 empty_body, Response 500 empty_body]"

text \<open>
  The request is refused with 401, the refresh is refused with 401 as well, the refresh
  started from there succeeds, and so do the two resends.
\<close>

definition refresh_refused_once :: env where
  "refresh_refused_once = undisturbed [Response 401 empty_body, Response 401 empty_body,
        Response 200 (enveloped None (Some ''T2'')), Response 200 (enveloped None (Some ''T3'')),
        Response 200 (enveloped (Some alice) None)]"

text \<open>As \<open>refreshing\<close>, with another task calling \<^verbatim>\<open>logout()\<close> while the refresh is in flight.\<close>

definition logout_mid_refresh :: env where
  "logout_mid_refresh =
     \<lparr>server = scripted [Response 401 empty_body,
                         Response 200 (enveloped None (Some ''T2'')),
                         Response 200 (enveloped (Some alice) None)],
      during = (\<lambda>i. if i = 1 then [CallLogout] else [])\<rparr>"

text \<open>
  Another task calls \<^verbatim>\<open>logout()\<close> while the request itself is in flight; the request and its
  resend are refused with 401.
\<close>

definition logout_mid_request :: env where
  "logout_mid_request =
     \<lparr>server = scripted [Response 401 empty_body, Response 401 empty_body],
      during = (\<lambda>i. if i = 0 then [CallLogout] else [])\<rparr>"

text \<open>The worlds \<open>signed_in\<close> goes through under \<open>refreshing\<close>.\<close>

definition me_sent :: world where
  "me_sent = signed_in\<lparr>wire := [get_me\<lparr>authorization := Some ''Bearer T0''\<rparr>]\<rparr>"

definition refreshed :: world where
  "refreshed = \<lparr>state = \<lparr>user = Some alice, token = Some ''T2'', isAuthenticated = True,
                          isLoading = False, error = None\<rparr>,
                storage = Some \<lparr>s_user = Some alice, s_token = Some ''T2'',
                                 s_isAuthenticated = True\<rparr>,
                wire = [get_me\<lparr>authorization := Some ''Bearer T0''\<rparr>,
                        (post ''/auth/refresh'' [])\<lparr>authorization := Some ''Bearer T0''\<rparr>]\<rparr>"

text \<open>
  Servers for one call: a login accepted with the body \<^verbatim>\<open>{data: {user, access_token}}\<close>,
  a login accepted with the body \<^verbatim>\<open>{user, access_token}\<close>, a login refused with 401 and a
  \<^verbatim>\<open>detail\<close> (twice, for the resend), a refresh granted, a refresh failing with 500.
\<close>

definition accepting :: env where
  "accepting = undisturbed [Response 200 (enveloped (Some alice) (Some ''T1''))]"

definition accepting_bare :: env where
  "accepting_bare = undisturbed [Response 200 (bare (Some alice) (Some ''T1''))]"

definition wrong_password :: env where
  "wrong_password = undisturbed [Response 401 (with_detail ''Incorrect email or password''),
                                 Response 401 (with_detail ''Incorrect email or password'')]"

definition refresh_granted :: env where
  "refresh_granted = undisturbed [Response 200 (enveloped None (Some ''T2''))]"

definition refresh_down :: env where
  "refresh_down = undisturbed [Response 500 empty_body]"

text \<open>A refresh refused with 401, then granted, and its resend granted too.\<close>

definition refresh_401_then_granted :: env where
  "refresh_401_then_granted = undisturbed [Response 401 empty_body,
        Response 200 (enveloped None (Some ''T2'')), Response 200 (enveloped None (Some ''T3''))]"

definition refresh_sent :: world where
  "refresh_sent = signed_in\<lparr>wire := [(post ''/auth/refresh'' [])
                                        \<lparr>authorization := Some ''Bearer T0''\<rparr>]\<rparr>"

definition login_request :: request where
  "login_request = post ''/auth/login'' [(''email'', ''a@x.com''), (''password'', ''pw'')]"

text \<open>
  A server that accepts every login and registration as \<open>alice\<close> with token \<^verbatim>\<open>T1\<close>, grants
  every refresh with token \<^verbatim>\<open>T2\<close>, and knows no other path; and the world a session of
  login, refresh, clearError and restart ends in under it.
\<close>

definition backend :: env where
  "backend =
     \<lparr>server = (\<lambda>h c.
         if url c = ''/auth/login'' \<or> url c = ''/auth/register''
           then Response 200 (enveloped (Some alice) (Some ''T1''))
         else if url c = ''/auth/refresh'' then Response 200 (enveloped None (Some ''T2''))
         else Response 404 empty_body),
      during = (\<lambda>i. [])\<rparr>"

definition reloaded :: world where
  "reloaded = \<lparr>state = \<lparr>user = Some alice, token = Some ''T2'', isAuthenticated = True,
                         isLoading = False, error = None\<rparr>,
               storage = Some \<lparr>s_user = Some alice, s_token = Some ''T2'',
                                s_isAuthenticated = True\<rparr>,
               wire = [login_request,
                       (post ''/auth/refresh'' [])\<lparr>authorization := Some ''Bearer T1''\<rparr>]\<rparr>"

section \<open>Properties of worlds\<close>

text \<open>Two worlds whose stores differ at most in the token.\<close>

definition only_token_differs :: "world \<Rightarrow> world \<Rightarrow> bool" where
  "only_token_differs w w' \<longleftrightarrow>
     user (state w') = user (state w) \<and> isAuthenticated (state w') = isAuthenticated (state w)
     \<and> isLoading (state w') = isLoading (state w) \<and> error (state w') = error (state w)"

text \<open>
  The storage entry, when there is one, is the snapshot of the current state; and an
  authenticated state has a token, respectively a user.
\<close>

definition token_invariant :: "world \<Rightarrow> bool" where
  "token_invariant w \<longleftrightarrow>
     (isAuthenticated (state w) \<longrightarrow> token (state w) \<noteq> None)
     \<and> (storage w = None \<or> storage w = Some (partialize (state w)))"

definition user_invariant :: "world \<Rightarrow> bool" where
  "user_invariant w \<longleftrightarrow>
     (isAuthenticated (state w) \<longrightarrow> user (state w) \<noteq> None)
     \<and> (storage w = None \<or> storage w = Some (partialize (state w)))"

section \<open>The pipeline, unfolded\<close>

lemma interceptor_keeps_retry: "retry (request_interceptor w c) = retry c"
  by (simp add: request_interceptor_def)

lemma interceptor_keeps_request:
  "url (request_interceptor w c) = url c \<and> req_method (request_interceptor w c) = req_method c
   \<and> req_data (request_interceptor w c) = req_data c"
  by (simp add: request_interceptor_def)

lemma interceptor_rebuilt:
  "request_interceptor w (c\<lparr>authorization := Some (bearer (token (state w)))\<rparr>)
     = c\<lparr>authorization := Some (bearer (token (state w)))\<rparr>"
  by (cases "token (state w)") (simp_all add: request_interceptor_def bearer_def truthy_def)

lemma wire_perform [simp]: "wire (perform a w) = wire w"
  by (cases a) (simp_all add: logout_def setUser_def setToken_def clearError_def set_state_def)

lemma wire_fold_perform [simp]: "wire (fold perform as w) = wire w"
  by (induction as arbitrary: w) simp_all

lemma wire_send_once: "wire (fst (send_once ev c w)) = wire w @ [request_interceptor w c]"
  by (simp add: send_once_def transmit_def Let_def)

lemma quiet_send_once:
  "during ev = (\<lambda>i. []) \<Longrightarrow> state (fst (send_once ev c w)) = state w"
  by (simp add: send_once_def transmit_def Let_def)

lemma begin_auth_fields [simp]:
  "token (state (begin_auth w)) = token (state w)" "wire (begin_auth w) = wire w"
  by (simp_all add: begin_auth_def set_state_def)

lemma interceptor_begin_auth [simp]:
  "request_interceptor (begin_auth w) c = request_interceptor w c"
  by (simp add: request_interceptor_def)

lemma state_auth_failed:
  "state (auth_failed fb e w) = \<lparr>user = None, token = None, isAuthenticated = False,
       isLoading = False, error = Some (error_message e fb)\<rparr>"
  by (simp add: auth_failed_def set_state_def)

lemma api_Suc:
  "api (Suc n) ev c w =
     (case send_once ev c w of
        (w1, Inr resp) \<Rightarrow> Some (w1, Inr resp)
      | (w1, Inl err) \<Rightarrow>
          if is_401 err \<and> \<not> retry c then
            (case refreshToken n ev w1 of
               None \<Rightarrow> None
             | Some (w2, Inl refreshError) \<Rightarrow> Some (logout w2, Inl refreshError)
             | Some (w2, Inr u) \<Rightarrow>
                 api n ev ((request_interceptor w c)\<lparr>retry := True,
                              authorization := Some (bearer (token (state w2)))\<rparr>) w2)
          else Some (w1, Inl err))"
  by (simp add: send_once_def Let_def interceptor_keeps_retry split: prod.splits sum.splits)

lemma api_unfold:
  "send_once ev c w = (w1, out) \<Longrightarrow>
   api (Suc n) ev c w =
     (case out of
        Inr resp \<Rightarrow> Some (w1, Inr resp)
      | Inl err \<Rightarrow>
          if is_401 err \<and> \<not> retry c then
            (case refreshToken n ev w1 of
               None \<Rightarrow> None
             | Some (w2, Inl refreshError) \<Rightarrow> Some (logout w2, Inl refreshError)
             | Some (w2, Inr u) \<Rightarrow>
                 api n ev ((request_interceptor w c)\<lparr>retry := True,
                              authorization := Some (bearer (token (state w2)))\<rparr>) w2)
          else Some (w1, Inl err))"
  by (simp add: api_Suc del: api.simps)

lemma refreshToken_Suc:
  "refreshToken (Suc n) ev w =
     (if \<not> truthy (token (state w)) then Some (w, Inr ())
      else finish_refresh (authService_refreshToken n ev w))"
  by (simp add: finish_refresh_def authService_refreshToken_def
           split: option.splits prod.splits sum.splits)

declare api.simps(2) [simp del] refreshToken.simps(2) [simp del]

text \<open>
  A request that carries the retry marker goes through the pipeline once, and what comes
  back is what the caller gets.
\<close>

lemma api_retried: "retry c \<Longrightarrow> api (Suc n) ev c w = Some (send_once ev c w)"
  by (simp add: api_Suc split: prod.splits sum.splits)

text \<open>The error handler on a first 401, given how the awaited \<open>refreshToken\<close> came back.\<close>

lemma api_first_401:
  assumes "\<not> retry c"
      and "transmit ev (request_interceptor w c) w = (w1, Response 401 b)"
      and "refreshToken n ev w1 = Some (w2, r)"
  shows "api (Suc n) ev c w =
           (case r of
              Inl refreshError \<Rightarrow> Some (logout w2, Inl refreshError)
            | Inr u \<Rightarrow>
                Some (send_once ev ((request_interceptor w c)\<lparr>retry := True,
                        authorization := Some (bearer (token (state w2)))\<rparr>) w2))"
proof -
  let ?c2 = "(request_interceptor w c)\<lparr>retry := True,
                        authorization := Some (bearer (token (state w2)))\<rparr>"
  have s: "send_once ev c w = (w1, Inl (AxiosError (request_interceptor w c) (Some (401, b))))"
    using assms(2) by (simp add: send_once_def Let_def settle_def)
  obtain k where k: "n = Suc k"
    using assms(3) by (cases n) simp_all
  have resend: "api n ev ?c2 w2 = Some (send_once ev ?c2 w2)"
    unfolding k by (rule api_retried) simp
  show ?thesis
    using assms(1,3) resend by (simp add: api_unfold [OF s] is_401_def split: sum.splits)
qed

lemma wire_resend:
  "wire (fst (send_once ev (c\<lparr>retry := True,
                 authorization := Some (bearer (token (state w2)))\<rparr>) w2))
     = wire w2 @ [c\<lparr>retry := True, authorization := Some (bearer (token (state w2)))\<rparr>]"
  using interceptor_rebuilt [where w = w2 and c = "c\<lparr>retry := True\<rparr>"]
  by (simp add: wire_send_once)

subsection \<open>More fuel never changes a result\<close>

lemma fuel_step:
  "(api n ev c w = Some r \<longrightarrow> api (Suc n) ev c w = Some r) \<and>
   (refreshToken n ev w = Some q \<longrightarrow> refreshToken (Suc n) ev w = Some q)"
proof (induction n arbitrary: c w r q)
  case 0
  show ?case by simp
next
  case (Suc n)
  have A: "\<And>c w r. api n ev c w = Some r \<Longrightarrow> api (Suc n) ev c w = Some r"
    using Suc.IH by blast
  have R: "\<And>w q. refreshToken n ev w = Some q \<Longrightarrow> refreshToken (Suc n) ev w = Some q"
    using Suc.IH by blast
  have 1: "api (Suc (Suc n)) ev c w = Some r" if h: "api (Suc n) ev c w = Some r"
  proof -
    obtain w1 out where s: "send_once ev c w = (w1, out)" by (cases "send_once ev c w")
    note u = api_unfold [OF s]
    show ?thesis
    proof (cases out)
      case (Inr resp)
      with h show ?thesis by (auto simp: u)
    next
      case (Inl err)
      show ?thesis
      proof (cases "is_401 err \<and> \<not> retry c")
        case False
        with h Inl show ?thesis by (auto simp: u)
      next
        case True
        show ?thesis
        proof (cases "refreshToken n ev w1")
          case None
          with h Inl True show ?thesis by (auto simp: u)
        next
          case (Some q')
          then have q': "refreshToken (Suc n) ev w1 = Some q'" by (rule R)
          obtain w2 x where q'_def: "q' = (w2, x)" by (cases q')
          show ?thesis
          proof (cases x)
            case (Inl e)
            with h \<open>out = Inl err\<close> True Some q' q'_def show ?thesis
              by (auto simp: u)
          next
            case (Inr v)
            with h \<open>out = Inl err\<close> True Some q'_def
            have "api n ev ((request_interceptor w c)\<lparr>retry := True,
                     authorization := Some (bearer (token (state w2)))\<rparr>) w2 = Some r"
              by (auto simp: u)
            then have "api (Suc n) ev ((request_interceptor w c)\<lparr>retry := True,
                     authorization := Some (bearer (token (state w2)))\<rparr>) w2 = Some r"
              by (rule A)
            with \<open>out = Inl err\<close> True q' q'_def Inr show ?thesis
              by (auto simp: u)
          qed
        qed
      qed
    qed
  qed
  have 2: "refreshToken (Suc (Suc n)) ev w = Some q" if h: "refreshToken (Suc n) ev w = Some q"
  proof (cases "truthy (token (state w))")
    case False
    with h show ?thesis by (auto simp: refreshToken.simps(2))
  next
    case True
    show ?thesis
    proof (cases "api n ev (post ''/auth/refresh'' []) w")
      case None
      with h True show ?thesis by (auto simp: refreshToken.simps(2) response_data_def)
    next
      case (Some a)
      then have "api (Suc n) ev (post ''/auth/refresh'' []) w = Some a" by (rule A)
      with h True Some show ?thesis by (auto simp: refreshToken.simps(2))
    qed
  qed
  show ?case using 1 2 by blast
qed

lemma api_fuel_mono: "api n ev c w = Some r \<Longrightarrow> n \<le> m \<Longrightarrow> api m ev c w = Some r"
  by (induction m) (auto simp: le_Suc_eq fuel_step)

lemma refreshToken_fuel_mono:
  "refreshToken n ev w = Some q \<Longrightarrow> n \<le> m \<Longrightarrow> refreshToken m ev w = Some q"
  by (induction m) (auto simp: le_Suc_eq fuel_step)

subsection \<open>With no other task running, a successful call changes the token at most\<close>

lemma quiet_success_frame:
  "during ev = (\<lambda>i. []) \<Longrightarrow>
     (api n ev c w = Some (w', Inr resp) \<longrightarrow> only_token_differs w w') \<and>
     (refreshToken n ev w = Some (w', Inr ()) \<longrightarrow> only_token_differs w w')"
proof (induction n arbitrary: c w w' resp)
  case 0
  show ?case by simp
next
  case (Suc n)
  note q = Suc.prems
  have A: "\<And>c w w' resp. api n ev c w = Some (w', Inr resp) \<Longrightarrow> only_token_differs w w'"
    using Suc.IH [OF q] by blast
  have R: "\<And>w w'. refreshToken n ev w = Some (w', Inr ()) \<Longrightarrow> only_token_differs w w'"
    using Suc.IH [OF q] by blast
  have 1: "only_token_differs w w'" if h: "api (Suc n) ev c w = Some (w', Inr resp)"
  proof -
    obtain w1 out where s: "send_once ev c w = (w1, out)" by (cases "send_once ev c w")
    have w1: "state w1 = state w" using quiet_send_once [OF q, of c w] s by simp
    show ?thesis
    proof (cases out)
      case (Inr x)
      with h w1 show ?thesis by (auto simp: api_unfold [OF s] only_token_differs_def)
    next
      case (Inl err)
      show ?thesis
      proof (cases "refreshToken n ev w1")
        case None
        with h Inl show ?thesis by (auto simp: api_unfold [OF s] split: if_splits)
      next
        case (Some a)
        obtain w2 x where a: "a = (w2, x)" by (cases a)
        show ?thesis
        proof (cases x)
          case (Inl e)
          with h \<open>out = Inl err\<close> Some a show ?thesis
            by (auto simp: api_unfold [OF s] split: if_splits)
        next
          case (Inr v)
          with Some a have "only_token_differs w1 w2" by (auto intro: R)
          moreover from h \<open>out = Inl err\<close> Some a Inr
          have "api n ev ((request_interceptor w c)\<lparr>retry := True,
                  authorization := Some (bearer (token (state w2)))\<rparr>) w2 = Some (w', Inr resp)"
            by (auto simp: api_unfold [OF s] split: if_splits)
          then have "only_token_differs w2 w'" by (rule A)
          ultimately show ?thesis using w1 by (simp add: only_token_differs_def)
        qed
      qed
    qed
  qed
  have 2: "only_token_differs w w'" if h: "refreshToken (Suc n) ev w = Some (w', Inr ())"
  proof (cases "truthy (token (state w))")
    case False
    with h show ?thesis by (auto simp: refreshToken.simps(2) only_token_differs_def)
  next
    case True
    with h obtain w1 b p where a: "api n ev (post ''/auth/refresh'' []) w = Some (w1, Inr b)"
      and w': "w' = token_refreshed p w1"
      by (auto simp: refreshToken.simps(2) response_data_def
            split: option.splits sum.splits prod.splits)
    from a have "only_token_differs w w1" by (rule A)
    with w' show ?thesis by (simp add: only_token_differs_def token_refreshed_def set_state_def)
  qed
  show ?case using 1 2 by blast
qed

section \<open>The 401 retry protocol\<close>

text \<open>
  C1 (as the code has it). For an outbound request without the retry marker whose response
  is a 401, the gateway awaits one \<open>refreshToken\<close> call. When that call succeeds, the
  original request (same method, url and data, now marked) is put on the wire once more,
  exactly once, with the Authorization header rebuilt from the token read after the
  refresh completed (\<^verbatim>\<open>Bearer\<close> and that token when the store holds a string then; \<^verbatim>\<open>Bearer null\<close>
  or \<^verbatim>\<open>Bearer undefined\<close> when it holds none), and what comes back is the caller's outcome as
  it is: the pass of a marked request starts no refresh, whatever its status. When that
  call fails, nothing is resent: \<open>logout\<close> is called and the caller gets the failure of the
  refresh.
\<close>

theorem refresh_then_resend_once:
  assumes "\<not> retry c"
      and "transmit ev (request_interceptor w c) w = (w1, Response 401 b)"
      and "refreshToken n ev w1 = Some (w2, r)"
  shows "case r of
           Inl refreshError \<Rightarrow> api (Suc n) ev c w = Some (logout w2, Inl refreshError)
         | Inr u \<Rightarrow>
             (\<exists>hdr.
                api (Suc n) ev c w
                  = Some (send_once ev ((request_interceptor w c)\<lparr>retry := True,
                            authorization := Some hdr\<rparr>) w2)
                \<and> wire (fst (send_once ev ((request_interceptor w c)\<lparr>retry := True,
                            authorization := Some hdr\<rparr>) w2))
                    = wire w2 @ [(request_interceptor w c)\<lparr>retry := True,
                                    authorization := Some hdr\<rparr>]
                \<and> url ((request_interceptor w c)\<lparr>retry := True,
                            authorization := Some hdr\<rparr>) = url c
                \<and> req_method ((request_interceptor w c)\<lparr>retry := True,
                            authorization := Some hdr\<rparr>) = req_method c
                \<and> req_data ((request_interceptor w c)\<lparr>retry := True,
                            authorization := Some hdr\<rparr>) = req_data c
                \<and> (case token (state w2) of
                      Some t \<Rightarrow> hdr = ''Bearer '' @ t
                    | None \<Rightarrow> hdr = ''Bearer null'' \<or> hdr = ''Bearer undefined''))"
proof (cases r)
  case (Inl refreshError)
  with api_first_401 [OF assms] show ?thesis by simp
next
  case (Inr u)
  have "case token (state w2) of
          Some t \<Rightarrow> bearer (token (state w2)) = ''Bearer '' @ t
        | None \<Rightarrow> bearer (token (state w2)) = ''Bearer null''
                   \<or> bearer (token (state w2)) = ''Bearer undefined''"
    by (simp add: bearer_def split: option.splits)
  with Inr api_first_401 [OF assms]
    wire_resend [where ev = ev and c = "request_interceptor w c" and ?w2.0 = w2]
  show ?thesis
    by (auto simp: interceptor_keeps_request intro!: exI [of _ "bearer (token (state w2))"])
qed

theorem refresh_then_resend_once_witness:
  "\<not> retry get_me
   \<and> transmit refreshing (request_interceptor signed_in get_me) signed_in
       = (me_sent, Response 401 empty_body)
   \<and> refreshToken 2 refreshing me_sent = Some (refreshed, Inr ())
   \<and> api 3 refreshing get_me signed_in
       = Some (refreshed\<lparr>wire := wire refreshed
                            @ [get_me\<lparr>retry := True, authorization := Some ''Bearer T2''\<rparr>]\<rparr>,
               Inr (200, enveloped (Some alice) None))"
proof -
  have h1: "\<not> retry get_me" by code_simp
  have h2: "transmit refreshing (request_interceptor signed_in get_me) signed_in
              = (me_sent, Response 401 empty_body)" by code_simp
  have h3: "refreshToken (Suc (Suc 0)) refreshing me_sent = Some (refreshed, Inr ())"
    by code_simp
  have t: "token (state refreshed) = Some ''T2''" by code_simp
  from refresh_then_resend_once [OF h1 h2 h3] t
  have "api (Suc (Suc (Suc 0))) refreshing get_me signed_in
          = Some (send_once refreshing ((request_interceptor signed_in get_me)\<lparr>retry := True,
                        authorization := Some (''Bearer '' @ ''T2'')\<rparr>) refreshed)"
    by auto
  also have "send_once refreshing ((request_interceptor signed_in get_me)\<lparr>retry := True,
                        authorization := Some (''Bearer '' @ ''T2'')\<rparr>) refreshed
       = (refreshed\<lparr>wire := wire refreshed
                            @ [get_me\<lparr>retry := True, authorization := Some ''Bearer T2''\<rparr>]\<rparr>,
               Inr (200, enveloped (Some alice) None))" by code_simp
  finally show ?thesis using h1 h2 h3 by (simp add: numeral_2_eq_2 numeral_3_eq_3)
qed

text \<open>
  The claim as stated, with a resend for every first 401, fails where the refresh fails:
  under \<open>refresh_refused\<close> the request and the refresh are all that goes on the wire, the
  session is logged out and the caller gets the refresh's 500.
\<close>

theorem refresh_failure_no_resend:
  "api 3 refresh_refused get_me signed_in
     = Some (\<lparr>state = \<lparr>user = None, token = None, isAuthenticated = False,
                        isLoading = False, error = None\<rparr>,
              storage = None,
              wire = [get_me\<lparr>authorization := Some ''Bearer T0''\<rparr>,
                      (post ''/auth/refresh'' [])\<lparr>authorization := Some ''Bearer T0''\<rparr>]\<rparr>,
             Inl (AxiosError ((post ''/auth/refresh'' [])\<lparr>authorization := Some ''Bearer T0''\<rparr>)
                    (Some (500, empty_body))))"
  by code_simp

section \<open>A 401 on the refresh call\<close>

lemma rejecting_send:
  "send_once rejecting c w =
     (w\<lparr>wire := wire w @ [request_interceptor w c]\<rparr>,
      Inl (AxiosError (request_interceptor w c) (Some (401, empty_body))))"
  by (simp add: send_once_def transmit_def rejecting_def settle_def Let_def)

lemma rejecting_never_returns:
  "truthy (token (state w)) \<Longrightarrow>
     (\<not> retry c \<longrightarrow> api n rejecting c w = None) \<and> refreshToken n rejecting w = None"
proof (induction n arbitrary: c w)
  case 0
  show ?case by simp
next
  case (Suc n)
  have tok: "truthy (token (state (w\<lparr>wire := wire w @ [request_interceptor w c]\<rparr>)))"
    using Suc.prems by simp
  have "api (Suc n) rejecting c w = None" if "\<not> retry c"
    using that Suc.IH [OF tok] by (simp add: api_unfold [OF rejecting_send] is_401_def)
  moreover have "refreshToken (Suc n) rejecting w = None"
    using Suc.prems Suc.IH [OF Suc.prems, of "post ''/auth/refresh'' []"]
    by (simp add: refreshToken.simps(2) response_data_def post_def)
  ultimately show ?case by blast
qed

text \<open>
  C2. The claim makes a 401 on the \<^verbatim>\<open>/auth/refresh\<close> call terminal. In the code the refresh
  call is a new request without the retry marker, sent through the same interceptors, so
  its 401 starts another \<open>refreshToken\<close>, which sends another refresh request, and so on
  while the server answers 401: with a token held and a server that refuses everything,
  the call has not returned within any amount of fuel.
\<close>

theorem refresh_401_never_terminal: "api n rejecting get_me signed_in = None"
  using rejecting_never_returns [of signed_in get_me n]
  by (simp add: signed_in_def get_me_def truthy_def)

text \<open>
  The same at a server that refuses the refresh once: the 401 on the first refresh request
  is followed by a second refresh request and by a resend of the first one; nobody is
  logged out.
\<close>

lemma refresh_401_refreshes_again:
  "api 5 refresh_refused_once get_me signed_in
     = Some (\<lparr>state = \<lparr>user = Some alice, token = Some ''T3'', isAuthenticated = True,
                        isLoading = False, error = None\<rparr>,
              storage = Some \<lparr>s_user = Some alice, s_token = Some ''T3'',
                               s_isAuthenticated = True\<rparr>,
              wire = [get_me\<lparr>authorization := Some ''Bearer T0''\<rparr>,
                      (post ''/auth/refresh'' [])\<lparr>authorization := Some ''Bearer T0''\<rparr>,
                      (post ''/auth/refresh'' [])\<lparr>authorization := Some ''Bearer T0''\<rparr>,
                      (post ''/auth/refresh'' [])\<lparr>authorization := Some ''Bearer T2'',
                                                   retry := True\<rparr>,
                      get_me\<lparr>authorization := Some ''Bearer T3'', retry := True\<rparr>]\<rparr>,
             Inr (200, enveloped (Some alice) None))"
  by code_simp

section \<open>Login\<close>

text \<open>
  C4 (as the code has it). The store reads the user and the token from the \<^verbatim>\<open>data\<close> object of
  the body that the login service returns. For every login whose request is answered with
  a 2xx status and a body \<^verbatim>\<open>{data: {user, access_token}}\<close>, the call succeeds and the store
  holds that user, that access token and \<open>isAuthenticated = True\<close>, with \<open>isLoading\<close> false
  and no error, and the snapshot of these is persisted.
\<close>

theorem login_success:
  assumes "server ev (wire w)
             (request_interceptor w (post ''/auth/login'' [(''email'', em), (''password'', pw)]))
           = Response st b"
      and "200 \<le> st" and "st < 300"
      and "data b = Some p"
  shows "\<exists>w'. login (Suc n) ev em pw w = Some (w', Inr ())
           \<and> state w' = \<lparr>user = p_user p, token = access_token p, isAuthenticated = True,
                          isLoading = False, error = None\<rparr>
           \<and> storage w' = Some \<lparr>s_user = p_user p, s_token = access_token p,
                                  s_isAuthenticated = True\<rparr>"
proof -
  let ?c = "post ''/auth/login'' [(''email'', em), (''password'', pw)]"
  obtain w1 where s: "send_once ev ?c (begin_auth w) = (w1, Inr (st, b))"
    using assms(1-3) by (simp add: send_once_def transmit_def settle_def Let_def)
  have "authService_login (Suc n) ev em pw (begin_auth w) = Some (w1, Inr b)"
    by (simp add: authService_login_def api_unfold [OF s] response_data_def)
  then have "login (Suc n) ev em pw w = Some (auth_succeeded p w1, Inr ())"
    using assms(4) by (simp add: login_def finish_auth_def)
  then show ?thesis
    by (simp add: auth_succeeded_def set_state_def partialize_def)
qed

theorem login_success_witness:
  "server accepting (wire initialWorld)
     (request_interceptor initialWorld
        (post ''/auth/login'' [(''email'', ''a@x.com''), (''password'', ''pw'')]))
     = Response 200 (enveloped (Some alice) (Some ''T1''))
   \<and> data (enveloped (Some alice) (Some ''T1''))
       = Some \<lparr>p_user = Some alice, access_token = Some ''T1''\<rparr>
   \<and> (\<exists>w'. login 1 accepting ''a@x.com'' ''pw'' initialWorld = Some (w', Inr ())
          \<and> state w' = \<lparr>user = Some alice, token = Some ''T1'', isAuthenticated = True,
                         isLoading = False, error = None\<rparr>
          \<and> storage w' = Some \<lparr>s_user = Some alice, s_token = Some ''T1'',
                                 s_isAuthenticated = True\<rparr>)"
proof -
  have h1: "server accepting (wire initialWorld)
     (request_interceptor initialWorld
        (post ''/auth/login'' [(''email'', ''a@x.com''), (''password'', ''pw'')]))
     = Response 200 (enveloped (Some alice) (Some ''T1''))" by code_simp
  have h2: "(200::nat) \<le> 200" and h3: "(200::nat) < 300" by simp_all
  have h4: "data (enveloped (Some alice) (Some ''T1''))
              = Some \<lparr>p_user = Some alice, access_token = Some ''T1''\<rparr>" by code_simp
  show ?thesis
    using login_success [OF h1 h2 h3 h4, of 0] h1 h4 by simp
qed

text \<open>
  The claim as stated fails at its own example: when the login service returns the body
  \<^verbatim>\<open>{user, access_token: "T1"}\<close>, reading \<^verbatim>\<open>response.data.user\<close> throws, the catch block
  runs, and the store ends logged out with the fallback message.
\<close>

theorem login_bare_payload_rejected:
  "login 1 accepting_bare ''a@x.com'' ''pw'' initialWorld
     = Some (\<lparr>state = \<lparr>user = None, token = None, isAuthenticated = False,
                        isLoading = False, error = Some ''Login failed''\<rparr>,
              storage = Some \<lparr>s_user = None, s_token = None, s_isAuthenticated = False\<rparr>,
              wire = [login_request]\<rparr>,
             Inl TypeError)"
  by code_simp

text \<open>
  What the catch block of \<open>login\<close> does once the service call has come back rejected, or
  with a body that has no \<^verbatim>\<open>data\<close> to read from (a \<^verbatim>\<open>TypeError\<close>): the store ends with user and
  token absent, \<open>isAuthenticated\<close> and \<open>isLoading\<close> false, and the error set to the \<^verbatim>\<open>detail\<close> of
  the rejection's response when there is a non-empty one, to \<^verbatim>\<open>Login failed\<close> otherwise; and
  the call rejects with the very failure it caught.
\<close>

lemma login_after_failed_service_call:
  assumes "authService_login n ev em pw (begin_auth w) = Some (w1, r)"
      and "r = Inl e \<or> (\<exists>b. r = Inr b \<and> data b = None \<and> e = TypeError)"
  shows "\<exists>w'. login n ev em pw w = Some (w', Inl e)
           \<and> state w' = \<lparr>user = None, token = None, isAuthenticated = False,
                          isLoading = False, error = Some (error_message e ''Login failed'')\<rparr>
           \<and> error_message e ''Login failed''
               = (case e of
                    AxiosError c (Some (st, b)) \<Rightarrow>
                      (case detail b of
                         None \<Rightarrow> ''Login failed''
                       | Some d \<Rightarrow> if d = [] then ''Login failed'' else d)
                  | AxiosError c None \<Rightarrow> ''Login failed''
                  | TypeError \<Rightarrow> ''Login failed'')"
proof -
  have "login n ev em pw w = Some (auth_failed ''Login failed'' e w1, Inl e)"
    using assms by (auto simp: login_def finish_auth_def)
  moreover have "error_message e ''Login failed''
               = (case e of
                    AxiosError c (Some (st, b)) \<Rightarrow>
                      (case detail b of
                         None \<Rightarrow> ''Login failed''
                       | Some d \<Rightarrow> if d = [] then ''Login failed'' else d)
                  | AxiosError c None \<Rightarrow> ''Login failed''
                  | TypeError \<Rightarrow> ''Login failed'')"
    by (simp add: error_message_def error_detail_def truthy_def
          split: rejection.splits option.splits)
  ultimately show ?thesis by (simp add: state_auth_failed)
qed

text \<open>
  With no token held and no other task running, the service call of a login does come
  back whatever the server answers: a 401 is followed by a \<open>refreshToken\<close> that has nothing
  to do and by one resend. So the login returns, and when it fails the store is as above.
\<close>

lemma login_settles_without_token:
  assumes quiet: "during ev = (\<lambda>i. [])"
      and none: "\<not> truthy (token (state w))"
  shows "\<exists>w' r. login (Suc (Suc n)) ev em pw w = Some (w', r)
           \<and> (\<forall>e. r = Inl e \<longrightarrow>
                 state w' = \<lparr>user = None, token = None, isAuthenticated = False,
                              isLoading = False,
                              error = Some (error_message e ''Login failed'')\<rparr>)"
proof -
  let ?c = "post ''/auth/login'' [(''email'', em), (''password'', pw)]"
  obtain w1 out where s: "send_once ev ?c (begin_auth w) = (w1, out)"
    by (cases "send_once ev ?c (begin_auth w)")
  have "state w1 = state (begin_auth w)"
    using quiet_send_once [OF quiet, of ?c "begin_auth w"] s by simp
  then have tok: "\<not> truthy (token (state w1))" using none by simp
  have r: "refreshToken (Suc n) ev w1 = Some (w1, Inr ())"
    using tok by (simp add: refreshToken_Suc)
  have "\<exists>a. api (Suc (Suc n)) ev ?c (begin_auth w) = Some a"
    using r by (cases out) (simp_all add: api_unfold [OF s] api_retried)
  then obtain w2 x where a: "api (Suc (Suc n)) ev ?c (begin_auth w) = Some (w2, x)"
    by auto
  then obtain y where "authService_login (Suc (Suc n)) ev em pw (begin_auth w) = Some (w2, y)"
    by (cases x) (auto simp: authService_login_def response_data_def)
  then show ?thesis
    by (auto simp: login_def finish_auth_def state_auth_failed split: sum.splits option.splits)
qed

lemma login_refused_without_token:
  "login 2 wrong_password ''a@x.com'' ''pw'' initialWorld
     = Some (\<lparr>state = \<lparr>user = None, token = None, isAuthenticated = False,
                        isLoading = False, error = Some ''Incorrect email or password''\<rparr>,
              storage = Some \<lparr>s_user = None, s_token = None, s_isAuthenticated = False\<rparr>,
              wire = [login_request,
                      login_request\<lparr>authorization := Some ''Bearer null'', retry := True\<rparr>]\<rparr>,
             Inl (AxiosError (login_request\<lparr>authorization := Some ''Bearer null'', retry := True\<rparr>)
                    (Some (401, with_detail ''Incorrect email or password''))))"
  by code_simp

text \<open>
  C7. The claim has every failing login end with user, token and \<open>isAuthenticated\<close> cleared,
  \<open>isLoading\<close> false, the error set and the failure re-signalled. In the code the login
  request goes through the gateway. With a token held (a restored snapshot, \<open>setToken\<close>), a
  login refused with 401 starts the refresh of the retry protocol, and a refresh refused
  with 401 starts another one, without end: the login does not return within any fuel,
  the catch block never runs, and the store stays as \<open>login\<close> left it on entry, with
  \<open>isLoading\<close> true and the old user and token.
\<close>

theorem login_refused_never_settles:
  "login n rejecting ''a@x.com'' ''pw'' signed_in = None
   \<and> state (begin_auth signed_in)
       = \<lparr>user = Some alice, token = Some ''T0'', isAuthenticated = True, isLoading = True,
          error = None\<rparr>"
proof -
  have "truthy (token (state (begin_auth signed_in)))"
    by (simp add: signed_in_def truthy_def)
  from rejecting_never_returns [OF this,
      of "post ''/auth/login'' [(''email'', ''a@x.com''), (''password'', ''pw'')]" n]
  have "login n rejecting ''a@x.com'' ''pw'' signed_in = None"
    by (simp add: login_def authService_login_def response_data_def finish_auth_def post_def)
  moreover have "state (begin_auth signed_in)
       = \<lparr>user = Some alice, token = Some ''T0'', isAuthenticated = True, isLoading = True,
          error = None\<rparr>"
    by (simp add: begin_auth_def set_state_def signed_in_def)
  ultimately show ?thesis by simp
qed

section \<open>Refreshing the token\<close>

text \<open>
  What \<open>refreshToken\<close> does around its service call. It succeeds without doing anything
  when no token is held. With a token held, once the service call has come back with a
  body that has a \<^verbatim>\<open>data\<close> object, it succeeds and writes only the token, the \<^verbatim>\<open>access_token\<close> of
  that object: user, \<open>isAuthenticated\<close>, \<open>isLoading\<close> and error are those the store had when
  the response arrived, and those it had when the call started if no other task ran
  meanwhile. Once the service call has come back rejected (or with a body without \<^verbatim>\<open>data\<close>),
  \<open>logout\<close> is called and the call rejects with that failure.
\<close>

lemma refreshToken_after_service_call:
  "(\<not> truthy (token (state w0)) \<longrightarrow> refreshToken (Suc k) ev0 w0 = Some (w0, Inr ()))
   \<and> (truthy (token (state w)) \<and> authService_refreshToken n ev w = Some (w1, Inr b)
        \<and> data b = Some p \<longrightarrow>
        refreshToken (Suc n) ev w = Some (token_refreshed p w1, Inr ())
        \<and> token (state (token_refreshed p w1)) = access_token p
        \<and> only_token_differs w1 (token_refreshed p w1)
        \<and> (during ev = (\<lambda>i. []) \<longrightarrow> only_token_differs w (token_refreshed p w1)))
   \<and> (truthy (token (state v)) \<and> authService_refreshToken m evv v = Some (v1, Inl e) \<longrightarrow>
        refreshToken (Suc m) evv v = Some (logout v1, Inl e))
   \<and> (truthy (token (state u)) \<and> authService_refreshToken j evu u = Some (u1, Inr bt)
        \<and> data bt = None \<longrightarrow>
        refreshToken (Suc j) evu u = Some (logout u1, Inl TypeError))"
proof -
  have "only_token_differs w (token_refreshed p w1)"
    if "during ev = (\<lambda>i. [])" and "refreshToken (Suc n) ev w = Some (token_refreshed p w1, Inr ())"
    using quiet_success_frame [OF that(1), of "Suc n" undefined w "token_refreshed p w1" undefined]
      that(2) by blast
  then show ?thesis
    by (auto simp: refreshToken_Suc finish_refresh_def only_token_differs_def
          token_refreshed_def set_state_def)
qed

lemma refreshToken_after_service_call_instance:
  "\<not> truthy (token (state initialWorld))
   \<and> refreshToken 1 rejecting initialWorld = Some (initialWorld, Inr ())
   \<and> truthy (token (state signed_in))
   \<and> authService_refreshToken 1 refresh_granted signed_in
       = Some (refresh_sent, Inr (enveloped None (Some ''T2'')))
   \<and> refreshToken 2 refresh_granted signed_in
       = Some (token_refreshed \<lparr>p_user = None, access_token = Some ''T2''\<rparr> refresh_sent, Inr ())
   \<and> state (token_refreshed \<lparr>p_user = None, access_token = Some ''T2''\<rparr> refresh_sent)
       = \<lparr>user = Some alice, token = Some ''T2'', isAuthenticated = True, isLoading = False,
          error = None\<rparr>
   \<and> authService_refreshToken 1 refresh_down signed_in
       = Some (refresh_sent,
               Inl (AxiosError ((post ''/auth/refresh'' [])\<lparr>authorization := Some ''Bearer T0''\<rparr>)
                      (Some (500, empty_body))))
   \<and> refreshToken 2 refresh_down signed_in
       = Some (logout refresh_sent,
               Inl (AxiosError ((post ''/auth/refresh'' [])\<lparr>authorization := Some ''Bearer T0''\<rparr>)
                      (Some (500, empty_body))))"
proof -
  let ?p = "\<lparr>p_user = None, access_token = Some ''T2''\<rparr>"
  let ?e = "AxiosError ((post ''/auth/refresh'' [])\<lparr>authorization := Some ''Bearer T0''\<rparr>)
              (Some (500, empty_body))"
  have a: "\<not> truthy (token (state initialWorld))" by code_simp
  have t: "truthy (token (state signed_in))" by code_simp
  have s: "authService_refreshToken (Suc 0) refresh_granted signed_in
             = Some (refresh_sent, Inr (enveloped None (Some ''T2'')))" by code_simp
  have d: "data (enveloped None (Some ''T2'')) = Some ?p" by code_simp
  have f: "authService_refreshToken (Suc 0) refresh_down signed_in
             = Some (refresh_sent, Inl ?e)" by code_simp
  have v: "state (token_refreshed ?p refresh_sent)
       = \<lparr>user = Some alice, token = Some ''T2'', isAuthenticated = True, isLoading = False,
          error = None\<rparr>" by code_simp
  note c = refreshToken_after_service_call [where ?w0.0 = initialWorld and k = 0 and ?ev0.0 = rejecting
      and w = signed_in and n = "Suc 0" and ev = refresh_granted and ?w1.0 = refresh_sent
      and b = "enveloped None (Some ''T2'')" and p = ?p
      and v = signed_in and m = "Suc 0" and evv = refresh_down and ?v1.0 = refresh_sent
      and e = ?e]
  show ?thesis
    using c a t s d f v by (simp add: numeral_2_eq_2)
qed

text \<open>
  The service call does come back when the refresh request is granted, and when it fails
  in any way but a 401.
\<close>

lemma refreshToken_granted:
  assumes "truthy (token (state w))"
      and "server ev (wire w) (request_interceptor w (post ''/auth/refresh'' []))
             = Response st b"
      and "200 \<le> st" and "st < 300"
      and "data b = Some p"
  shows "\<exists>w1. refreshToken (Suc (Suc n)) ev w = Some (token_refreshed p w1, Inr ())
           \<and> token (state (token_refreshed p w1)) = access_token p
           \<and> only_token_differs w1 (token_refreshed p w1)"
proof -
  obtain w1 where s: "send_once ev (post ''/auth/refresh'' []) w = (w1, Inr (st, b))"
    using assms(2-4) by (simp add: send_once_def transmit_def settle_def Let_def)
  have "authService_refreshToken (Suc n) ev w = Some (w1, Inr b)"
    by (simp add: authService_refreshToken_def api_unfold [OF s] response_data_def)
  then have "refreshToken (Suc (Suc n)) ev w = Some (token_refreshed p w1, Inr ())"
    using assms(1,5) by (simp add: refreshToken_Suc finish_refresh_def)
  moreover have "token (state (token_refreshed p w1)) = access_token p"
    and "only_token_differs w1 (token_refreshed p w1)"
    by (simp_all add: only_token_differs_def token_refreshed_def set_state_def)
  ultimately show ?thesis by blast
qed

lemma refreshToken_failure_other_than_401:
  assumes "truthy (token (state w))"
      and "send_once ev (post ''/auth/refresh'' []) w = (w1, Inl err)"
      and "\<not> is_401 err"
  shows "refreshToken (Suc (Suc n)) ev w = Some (logout w1, Inl err)"
proof -
  have "authService_refreshToken (Suc n) ev w = Some (w1, Inl err)"
    using assms(3)
    by (simp add: authService_refreshToken_def api_unfold [OF assms(2)] response_data_def)
  then show ?thesis
    using assms(1) by (simp add: refreshToken_Suc finish_refresh_def)
qed

text \<open>
  C5. The claim has \<open>refreshToken\<close>, with a token held, call \<open>logout\<close> and reject whenever
  the refresh fails. In the code the refresh request goes through the gateway like any
  other: answered 401, it starts the retry protocol, which calls \<open>refreshToken\<close> again.
  While the server refuses the refresh with 401 the call does not return within any
  fuel, so \<open>logout\<close> is not called and no failure reaches the caller.
\<close>

theorem refreshToken_refused_never_settles: "refreshToken n rejecting signed_in = None"
  using rejecting_never_returns [of signed_in undefined n]
  by (simp add: signed_in_def truthy_def)

text \<open>
  And when the server refuses the refresh once and grants the next one, the call that
  met the 401 succeeds: three refresh requests are on the wire, nobody is logged out and
  nothing is rejected.
\<close>

lemma refresh_401_then_granted_succeeds:
  "refreshToken 4 refresh_401_then_granted signed_in
     = Some (\<lparr>state = \<lparr>user = Some alice, token = Some ''T3'', isAuthenticated = True,
                        isLoading = False, error = None\<rparr>,
              storage = Some \<lparr>s_user = Some alice, s_token = Some ''T3'',
                               s_isAuthenticated = True\<rparr>,
              wire = [(post ''/auth/refresh'' [])\<lparr>authorization := Some ''Bearer T0''\<rparr>,
                      (post ''/auth/refresh'' [])\<lparr>authorization := Some ''Bearer T0''\<rparr>,
                      (post ''/auth/refresh'' [])\<lparr>authorization := Some ''Bearer T2'',
                                                   retry := True\<rparr>]\<rparr>,
             Inr ())"
  by code_simp

section \<open>A logout while the refresh is in flight\<close>

text \<open>
  When another task calls \<open>logout\<close> while the refresh request of a 401-triggered refresh
  is in flight and the refresh is then granted with a token, the \<^verbatim>\<open>set\<close> of \<open>refreshToken\<close>
  comes after the logout: it writes that token into the logged-out store, and the resend
  of the original request is issued with the Authorization header rebuilt from it.
\<close>

lemma logout_during_refresh:
  assumes "\<not> retry c"
      and "transmit ev (request_interceptor w c) w = (w1, Response 401 b)"
      and "truthy (token (state w1))"
      and "during ev (length (wire w1)) = [CallLogout]"
      and "server ev (wire w1) (request_interceptor w1 (post ''/auth/refresh'' []))
             = Response st rb"
      and "200 \<le> st" and "st < 300"
      and "data rb = Some p"
      and "access_token p = Some t"
  shows "\<exists>w2. refreshToken (Suc (Suc n)) ev w1 = Some (w2, Inr ())
           \<and> state w2 = \<lparr>user = None, token = Some t, isAuthenticated = False,
                          isLoading = False, error = None\<rparr>
           \<and> storage w2 = Some \<lparr>s_user = None, s_token = Some t, s_isAuthenticated = False\<rparr>
           \<and> api (Suc (Suc (Suc n))) ev c w
               = Some (send_once ev ((request_interceptor w c)\<lparr>retry := True,
                         authorization := Some (''Bearer '' @ t)\<rparr>) w2)
           \<and> wire (fst (send_once ev ((request_interceptor w c)\<lparr>retry := True,
                         authorization := Some (''Bearer '' @ t)\<rparr>) w2))
               = wire w1 @ [request_interceptor w1 (post ''/auth/refresh'' []),
                            (request_interceptor w c)\<lparr>retry := True,
                               authorization := Some (''Bearer '' @ t)\<rparr>]"
proof -
  let ?f = "request_interceptor w1 (post ''/auth/refresh'' [])"
  let ?w1' = "logout (w1\<lparr>wire := wire w1 @ [?f]\<rparr>)"
  let ?w2 = "token_refreshed p ?w1'"
  have s: "send_once ev (post ''/auth/refresh'' []) w1 = (?w1', Inr (st, rb))"
    using assms(4-7) by (simp add: send_once_def transmit_def settle_def Let_def)
  have "authService_refreshToken (Suc n) ev w1 = Some (?w1', Inr rb)"
    by (simp add: authService_refreshToken_def api_unfold [OF s] response_data_def)
  then have r: "refreshToken (Suc (Suc n)) ev w1 = Some (?w2, Inr ())"
    using assms(3,8) by (simp add: refreshToken_Suc finish_refresh_def)
  have st2: "state ?w2 = \<lparr>user = None, token = Some t, isAuthenticated = False,
                          isLoading = False, error = None\<rparr>"
    using assms(9) by (simp add: token_refreshed_def logout_def set_state_def)
  have sg: "storage ?w2 = Some \<lparr>s_user = None, s_token = Some t, s_isAuthenticated = False\<rparr>"
    using assms(9) by (simp add: token_refreshed_def logout_def set_state_def partialize_def)
  have w2: "wire ?w2 = wire w1 @ [?f]"
    by (simp add: token_refreshed_def logout_def set_state_def)
  have b: "bearer (token (state ?w2)) = ''Bearer '' @ t" using st2 by (simp add: bearer_def)
  from api_first_401 [OF assms(1,2) r]
    wire_resend [where ev = ev and c = "request_interceptor w c" and ?w2.0 = ?w2]
  show ?thesis using r st2 sg w2 b by simp
qed

text \<open>
  C9. The claim has the resend after such a logout go out without a bearer credential,
  the token being cleared. In the code, under \<open>logout_mid_refresh\<close>, the logout clears the
  store and removes the storage entry while the refresh request is in flight; the refresh
  is then granted and its \<^verbatim>\<open>set\<close> puts the new token back, in the store and in the storage
  entry; the resend, third on the wire, carries \<^verbatim>\<open>Bearer T2\<close>; and the session is left
  logged out but holding a live token.
\<close>

theorem logout_mid_refresh_resend_authenticated:
  "api 3 logout_mid_refresh get_me signed_in
     = Some (\<lparr>state = \<lparr>user = None, token = Some ''T2'', isAuthenticated = False,
                        isLoading = False, error = None\<rparr>,
              storage = Some \<lparr>s_user = None, s_token = Some ''T2'',
                               s_isAuthenticated = False\<rparr>,
              wire = [get_me\<lparr>authorization := Some ''Bearer T0''\<rparr>,
                      (post ''/auth/refresh'' [])\<lparr>authorization := Some ''Bearer T0''\<rparr>,
                      get_me\<lparr>authorization := Some ''Bearer T2'', retry := True\<rparr>]\<rparr>,
             Inr (200, enveloped (Some alice) None))"
  by code_simp

text \<open>
  When the logout comes before the 401 instead, \<open>refreshToken\<close> has nothing to do and the
  store stays logged out, without a token and without a storage entry; the resend then
  carries the Authorization header that the template literal prints for \<^verbatim>\<open>null\<close>.
\<close>

lemma logout_mid_request_resend_bearer_null:
  "api 2 logout_mid_request get_me signed_in
     = Some (\<lparr>state = \<lparr>user = None, token = None, isAuthenticated = False,
                        isLoading = False, error = None\<rparr>,
              storage = None,
              wire = [get_me\<lparr>authorization := Some ''Bearer T0''\<rparr>,
                      get_me\<lparr>authorization := Some ''Bearer null'', retry := True\<rparr>]\<rparr>,
             Inl (AxiosError (get_me\<lparr>authorization := Some ''Bearer null'', retry := True\<rparr>)
                    (Some (401, empty_body))))"
  by code_simp

section \<open>The invariant of an authenticated session\<close>

lemmas update_defs = begin_auth_def auth_succeeded_def auth_failed_def token_refreshed_def
  logout_def clearError_def setUser_def setToken_def restore_def set_state_def rehydrate_def
  partialize_def initialState_def

lemma token_invariant_step:
  "token_invariant w \<Longrightarrow> contractual u \<Longrightarrow> token_invariant (apply_update u w)"
  by (cases u) (auto simp: token_invariant_def update_defs)

lemma user_invariant_step:
  "user_invariant w \<Longrightarrow> contractual u \<Longrightarrow> \<not> is_SetToken u
     \<Longrightarrow> user_invariant (apply_update u w)"
  by (cases u) (auto simp: user_invariant_def update_defs)

lemma token_invariant_fold:
  "token_invariant w \<Longrightarrow> list_all contractual us \<Longrightarrow> token_invariant (fold apply_update us w)"
  by (induction us arbitrary: w) (simp_all add: token_invariant_step)

lemma user_invariant_fold:
  "user_invariant w \<Longrightarrow> list_all contractual us \<Longrightarrow> \<not> list_ex is_SetToken us
     \<Longrightarrow> user_invariant (fold apply_update us w)"
  by (induction us arbitrary: w) (simp_all add: user_invariant_step)

text \<open>
  The same holds of every list of updates, whichever operations and tasks they belong to
  and however they interleave.
\<close>

lemma history_invariant:
  assumes "list_all contractual us"
  shows "(isAuthenticated (state (history us)) \<longrightarrow> token (state (history us)) \<noteq> None)
       \<and> (\<not> list_ex is_SetToken us \<longrightarrow> isAuthenticated (state (history us)) \<longrightarrow>
            user (state (history us)) \<noteq> None)"
proof -
  have "token_invariant initialWorld" "user_invariant initialWorld"
    by (simp_all add: token_invariant_def user_invariant_def initialWorld_def initialState_def)
  then show ?thesis
    using token_invariant_fold [OF _ assms] user_invariant_fold [OF _ assms]
    by (auto simp: history_def token_invariant_def user_invariant_def)
qed

subsection \<open>What the pipeline preserves\<close>

lemma settle_Inr:
  "settle c r = Inr (st, b) \<longleftrightarrow> r = Response st b \<and> 200 \<le> st \<and> st < 300"
  by (auto simp: settle_def split: reply.splits)

lemma send_once_Inr:
  "send_once ev c w = (w1, Inr (st, b)) \<Longrightarrow>
     server ev (wire w) (request_interceptor w c) = Response st b \<and> 200 \<le> st \<and> st < 300"
  by (auto simp: send_once_def transmit_def Let_def settle_Inr)

lemma send_once_world:
  "fst (send_once ev c w)
     = fold perform (during ev (length (wire w))) (w\<lparr>wire := wire w @ [request_interceptor w c]\<rparr>)"
  by (simp add: send_once_def transmit_def Let_def)

lemma pipeline_preserves:
  assumes lo: "\<And>w. P w \<Longrightarrow> P (logout w)"
      and tr: "\<And>w p h c st b. P w \<Longrightarrow> server ev h c = Response st b \<Longrightarrow> 200 \<le> st
                 \<Longrightarrow> st < 300 \<Longrightarrow> data b = Some p \<Longrightarrow> P (token_refreshed p w)"
      and pf: "\<And>w i a. P w \<Longrightarrow> a \<in> set (during ev i) \<Longrightarrow> P (perform a w)"
      and wi: "\<And>w rs. P w \<Longrightarrow> P (w\<lparr>wire := rs\<rparr>)"
  shows "(P w \<longrightarrow> api n ev c w = Some (w', r) \<longrightarrow>
            P w' \<and> (\<forall>st b. r = Inr (st, b) \<longrightarrow>
                      200 \<le> st \<and> st < 300 \<and>
                      (\<exists>h c'. server ev h c' = Response st b \<and> url c' = url c)))
       \<and> (P w \<longrightarrow> refreshToken n ev w = Some (w', q) \<longrightarrow> P w')"
proof (induction n arbitrary: c w w' r q)
  case 0
  show ?case by simp
next
  case (Suc n)
  have A: "\<And>c w w' r. P w \<Longrightarrow> api n ev c w = Some (w', r) \<Longrightarrow>
            P w' \<and> (\<forall>st b. r = Inr (st, b) \<longrightarrow> 200 \<le> st \<and> st < 300 \<and>
                      (\<exists>h c'. server ev h c' = Response st b \<and> url c' = url c))"
    using Suc.IH by blast
  have R: "\<And>w w' q. P w \<Longrightarrow> refreshToken n ev w = Some (w', q) \<Longrightarrow> P w'"
    using Suc.IH by blast
  have folds: "P w \<Longrightarrow> set as \<subseteq> set (during ev i) \<Longrightarrow> P (fold perform as w)" for as w i
    by (induction as arbitrary: w) (auto intro: pf)
  have sent: "P (fst (send_once ev c w))" if "P w" for c w
    unfolding send_once_world by (rule folds [OF wi [OF that] subset_refl])
  have 1: "P w' \<and> (\<forall>st b. r = Inr (st, b) \<longrightarrow> 200 \<le> st \<and> st < 300 \<and>
                      (\<exists>h c'. server ev h c' = Response st b \<and> url c' = url c))"
    if pw: "P w" and h: "api (Suc n) ev c w = Some (w', r)"
  proof -
    obtain w1 out where s: "send_once ev c w = (w1, out)" by (cases "send_once ev c w")
    have p1: "P w1" using sent [OF pw, of c] s by simp
    note u = api_unfold [OF s]
    show ?thesis
    proof (cases out)
      case (Inr resp)
      obtain st b where resp: "resp = (st, b)" by (cases resp)
      from send_once_Inr [of ev c w w1 st b] s Inr resp
      have "server ev (wire w) (request_interceptor w c) = Response st b \<and> 200 \<le> st \<and> st < 300"
        by simp
      moreover have "url (request_interceptor w c) = url c" by (simp add: interceptor_keeps_request)
      ultimately show ?thesis using h Inr resp p1 by (auto simp: u)
    next
      case (Inl err)
      show ?thesis
      proof (cases "is_401 err \<and> \<not> retry c")
        case False
        with h Inl p1 show ?thesis by (auto simp: u)
      next
        case True
        show ?thesis
        proof (cases "refreshToken n ev w1")
          case None
          with h Inl True show ?thesis by (auto simp: u)
        next
          case (Some a)
          obtain w2 x where a: "a = (w2, x)" by (cases a)
          have p2: "P w2" using R [OF p1] Some a by simp
          show ?thesis
          proof (cases x)
            case (Inl e)
            with h \<open>out = Inl err\<close> True Some a lo [OF p2] show ?thesis
              by (auto simp: u)
          next
            case (Inr v)
            let ?c2 = "(request_interceptor w c)\<lparr>retry := True,
                     authorization := Some (bearer (token (state w2)))\<rparr>"
            from h \<open>out = Inl err\<close> True Some a Inr
            have "api n ev ?c2 w2 = Some (w', r)" by (auto simp: u)
            from A [OF p2 this] show ?thesis by (simp add: interceptor_keeps_request)
          qed
        qed
      qed
    qed
  qed
  have 2: "P w'" if pw: "P w" and h: "refreshToken (Suc n) ev w = Some (w', q)"
  proof (cases "truthy (token (state w))")
    case False
    with h pw show ?thesis by (auto simp: refreshToken.simps(2))
  next
    case True
    show ?thesis
    proof (cases "api n ev (post ''/auth/refresh'' []) w")
      case None
      with h True show ?thesis by (auto simp: refreshToken.simps(2) response_data_def)
    next
      case (Some a)
      obtain w1 x where a: "a = (w1, x)" by (cases a)
      note ih = A [OF pw Some [unfolded a]]
      show ?thesis
      proof (cases x)
        case (Inl e)
        with h True Some a ih lo show ?thesis
          by (auto simp: refreshToken.simps(2) response_data_def)
      next
        case (Inr resp)
        obtain st b where resp: "resp = (st, b)" by (cases resp)
        show ?thesis
        proof (cases "data b")
          case None
          with h True Some a Inr resp ih lo show ?thesis
            by (auto simp: refreshToken.simps(2) response_data_def)
        next
          case (Some p)
          from ih Inr resp obtain hh cc where "server ev hh cc = Response st b" "200 \<le> st" "st < 300"
            by auto
          from tr [OF _ this Some] ih have "P (token_refreshed p w1)" by simp
          with h True \<open>api n ev (post ''/auth/refresh'' []) w = Some a\<close> a Inr resp Some
          show ?thesis by (auto simp: refreshToken.simps(2) response_data_def)
        qed
      qed
    qed
  qed
  show ?case using 1 2 by blast
qed


lemma api_response_origin:
  assumes "api n ev c w = Some (w', Inr (st, b))"
  shows "200 \<le> st \<and> st < 300 \<and> (\<exists>h c'. server ev h c' = Response st b \<and> url c' = url c)"
proof -
  have "(True \<longrightarrow> api n ev c w = Some (w', Inr (st, b)) \<longrightarrow>
            True \<and> (\<forall>st' b'. Inr (st, b) = (Inr (st', b') :: rejection + response) \<longrightarrow>
                      200 \<le> st' \<and> st' < 300 \<and>
                      (\<exists>h c'. server ev h c' = Response st' b' \<and> url c' = url c)))
       \<and> (True \<longrightarrow> refreshToken n ev w = Some (w', Inr ()) \<longrightarrow> True)"
    by (rule pipeline_preserves [where P = "\<lambda>w. True"]) simp_all
  with assms show ?thesis by simp
qed

lemma token_invariant_pipeline:
  assumes sc: "server_contractual ev" and inv: "token_invariant w"
  shows "(api n ev c w = Some (w', r) \<longrightarrow>
            token_invariant w' \<and> (\<forall>st b. r = Inr (st, b) \<longrightarrow>
                      200 \<le> st \<and> st < 300 \<and>
                      (\<exists>h c'. server ev h c' = Response st b \<and> url c' = url c)))
       \<and> (refreshToken n ev w = Some (w', q) \<longrightarrow> token_invariant w')"
proof -
  have lo: "\<And>w. token_invariant w \<Longrightarrow> token_invariant (logout w)"
    by (simp add: token_invariant_def update_defs)
  have tr: "\<And>w p h c st b. token_invariant w \<Longrightarrow> server ev h c = Response st b \<Longrightarrow> 200 \<le> st
                 \<Longrightarrow> st < 300 \<Longrightarrow> data b = Some p \<Longrightarrow> token_invariant (token_refreshed p w)"
    using sc by (auto simp: server_contractual_def token_invariant_def update_defs)
  have pf: "\<And>w i a. token_invariant w \<Longrightarrow> a \<in> set (during ev i) \<Longrightarrow> token_invariant (perform a w)"
  proof -
    fix w i a show "token_invariant w \<Longrightarrow> a \<in> set (during ev i) \<Longrightarrow> token_invariant (perform a w)"
      by (cases a) (auto simp: token_invariant_def update_defs)
  qed
  have wi: "\<And>w rs. token_invariant w \<Longrightarrow> token_invariant (w\<lparr>wire := rs\<rparr>)"
    by (simp add: token_invariant_def)
  have "(token_invariant w \<longrightarrow> api n ev c w = Some (w', r) \<longrightarrow>
            token_invariant w' \<and> (\<forall>st b. r = Inr (st, b) \<longrightarrow>
                      200 \<le> st \<and> st < 300 \<and>
                      (\<exists>h c'. server ev h c' = Response st b \<and> url c' = url c)))
       \<and> (token_invariant w \<longrightarrow> refreshToken n ev w = Some (w', q) \<longrightarrow> token_invariant w')"
  proof (rule pipeline_preserves [where P = token_invariant])
    show "\<And>w. token_invariant w \<Longrightarrow> token_invariant (logout w)" by (rule lo)
    show "\<And>w p h c st b. token_invariant w \<Longrightarrow> server ev h c = Response st b \<Longrightarrow> 200 \<le> st
                 \<Longrightarrow> st < 300 \<Longrightarrow> data b = Some p \<Longrightarrow> token_invariant (token_refreshed p w)"
      by (rule tr)
    show "\<And>w i a. token_invariant w \<Longrightarrow> a \<in> set (during ev i) \<Longrightarrow> token_invariant (perform a w)"
      by (rule pf)
    show "\<And>w rs. token_invariant w \<Longrightarrow> token_invariant (w\<lparr>wire := rs\<rparr>)" by (rule wi)
  qed
  with inv show ?thesis by blast
qed

lemma user_invariant_pipeline:
  assumes sc: "server_contractual ev" and inv: "user_invariant w"
      and quiet: "\<forall>i. \<not> list_ex is_CallSetToken (during ev i)"
  shows "(api n ev c w = Some (w', r) \<longrightarrow>
            user_invariant w' \<and> (\<forall>st b. r = Inr (st, b) \<longrightarrow>
                      200 \<le> st \<and> st < 300 \<and>
                      (\<exists>h c'. server ev h c' = Response st b \<and> url c' = url c)))
       \<and> (refreshToken n ev w = Some (w', q) \<longrightarrow> user_invariant w')"
proof -
  have lo: "\<And>w. user_invariant w \<Longrightarrow> user_invariant (logout w)"
    by (simp add: user_invariant_def update_defs)
  have tr: "\<And>w p h c st b. user_invariant w \<Longrightarrow> server ev h c = Response st b \<Longrightarrow> 200 \<le> st
                 \<Longrightarrow> st < 300 \<Longrightarrow> data b = Some p \<Longrightarrow> user_invariant (token_refreshed p w)"
    by (auto simp: user_invariant_def update_defs)
  have pf: "\<And>w i a. user_invariant w \<Longrightarrow> a \<in> set (during ev i) \<Longrightarrow> user_invariant (perform a w)"
  proof -
    fix w i a
    assume "user_invariant w" "a \<in> set (during ev i)"
    moreover from this quiet have "\<not> is_CallSetToken a" by (auto simp: list_ex_iff)
    ultimately show "user_invariant (perform a w)"
      by (cases a) (auto simp: user_invariant_def update_defs)
  qed
  have wi: "\<And>w rs. user_invariant w \<Longrightarrow> user_invariant (w\<lparr>wire := rs\<rparr>)"
    by (simp add: user_invariant_def)
  have "(user_invariant w \<longrightarrow> api n ev c w = Some (w', r) \<longrightarrow>
            user_invariant w' \<and> (\<forall>st b. r = Inr (st, b) \<longrightarrow>
                      200 \<le> st \<and> st < 300 \<and>
                      (\<exists>h c'. server ev h c' = Response st b \<and> url c' = url c)))
       \<and> (user_invariant w \<longrightarrow> refreshToken n ev w = Some (w', q) \<longrightarrow> user_invariant w')"
  proof (rule pipeline_preserves [where P = user_invariant])
    show "\<And>w. user_invariant w \<Longrightarrow> user_invariant (logout w)" by (rule lo)
    show "\<And>w p h c st b. user_invariant w \<Longrightarrow> server ev h c = Response st b \<Longrightarrow> 200 \<le> st
                 \<Longrightarrow> st < 300 \<Longrightarrow> data b = Some p \<Longrightarrow> user_invariant (token_refreshed p w)"
      by (rule tr)
    show "\<And>w i a. user_invariant w \<Longrightarrow> a \<in> set (during ev i) \<Longrightarrow> user_invariant (perform a w)"
      by (rule pf)
    show "\<And>w rs. user_invariant w \<Longrightarrow> user_invariant (w\<lparr>wire := rs\<rparr>)" by (rule wi)
  qed
  with inv show ?thesis by blast
qed

lemma finish_auth_cases:
  assumes "finish_auth fb (response_data a) = Some (w', r)"
  obtains w1 e where "a = Some (w1, Inl e)" "w' = auth_failed fb e w1"
  | w1 st b where "a = Some (w1, Inr (st, b))" "data b = None" "w' = auth_failed fb TypeError w1"
  | w1 st b p where "a = Some (w1, Inr (st, b))" "data b = Some p" "w' = auth_succeeded p w1"
  using assms
  by (auto simp: finish_auth_def response_data_def split: option.splits sum.splits prod.splits)

lemma invoke_token_invariant:
  assumes sc: "server_contractual ev" and inv: "token_invariant w"
      and run: "invoke n ev x w = Some w'"
  shows "token_invariant w'"
proof (cases x)
  case (Login em pw)
  let ?c = "post ''/auth/login'' [(''email'', em), (''password'', pw)]"
  have b: "token_invariant (begin_auth w)"
    using inv by (auto simp: token_invariant_def update_defs)
  from run Login obtain r where
    "finish_auth ''Login failed'' (response_data (api n ev ?c (begin_auth w))) = Some (w', r)"
    by (auto simp: login_def authService_login_def)
  then show ?thesis
  proof (cases rule: finish_auth_cases)
    case (1 w1 e)
    then show ?thesis by (simp add: token_invariant_def update_defs)
  next
    case (2 w1 st b)
    then show ?thesis by (simp add: token_invariant_def update_defs)
  next
    case (3 w1 st b p)
    from api_response_origin [OF 3(1)]
    obtain h c' where "server ev h c' = Response st b" "200 \<le> st" "st < 300"
      "url c' = ''/auth/login''" by (auto simp: post_def)
    with sc 3(2) have "access_token p \<noteq> None"
      unfolding server_contractual_def by blast
    with 3(3) show ?thesis by (auto simp: token_invariant_def update_defs)
  qed
next
  case (Register em pw nm)
  let ?c = "post ''/auth/register'' ([(''email'', em), (''password'', pw)] @
        (case nm of None \<Rightarrow> [] | Some x \<Rightarrow> [(''name'', x)]))"
  have b: "token_invariant (begin_auth w)"
    using inv by (auto simp: token_invariant_def update_defs)
  from run Register obtain r where
    "finish_auth ''Registration failed'' (response_data (api n ev ?c (begin_auth w)))
       = Some (w', r)"
    by (auto simp: register_def authService_register_def)
  then show ?thesis
  proof (cases rule: finish_auth_cases)
    case (1 w1 e)
    then show ?thesis by (simp add: token_invariant_def update_defs)
  next
    case (2 w1 st b)
    then show ?thesis by (simp add: token_invariant_def update_defs)
  next
    case (3 w1 st b p)
    from api_response_origin [OF 3(1)]
    obtain h c' where "server ev h c' = Response st b" "200 \<le> st" "st < 300"
      "url c' = ''/auth/register''" by (auto simp: post_def)
    with sc 3(2) have "access_token p \<noteq> None"
      unfolding server_contractual_def by blast
    with 3(3) show ?thesis by (auto simp: token_invariant_def update_defs)
  qed
next
  case RefreshToken
  with run obtain q where "refreshToken n ev w = Some (w', q)" by auto
  with token_invariant_pipeline [OF sc inv, of n undefined w' undefined q] show ?thesis by blast
qed (use inv run in \<open>auto simp: token_invariant_def update_defs\<close>)

lemma invoke_user_invariant:
  assumes sc: "server_contractual ev" and inv: "user_invariant w"
      and quiet: "\<forall>i. \<not> list_ex is_CallSetToken (during ev i)"
      and x: "\<not> is_DoSetToken x"
      and run: "invoke n ev x w = Some w'"
  shows "user_invariant w'"
proof (cases x)
  case (Login em pw)
  let ?c = "post ''/auth/login'' [(''email'', em), (''password'', pw)]"
  have b: "user_invariant (begin_auth w)"
    using inv by (auto simp: user_invariant_def update_defs)
  from run Login obtain r where
    "finish_auth ''Login failed'' (response_data (api n ev ?c (begin_auth w))) = Some (w', r)"
    by (auto simp: login_def authService_login_def)
  then show ?thesis
  proof (cases rule: finish_auth_cases)
    case (1 w1 e)
    then show ?thesis by (simp add: user_invariant_def update_defs)
  next
    case (2 w1 st b)
    then show ?thesis by (simp add: user_invariant_def update_defs)
  next
    case (3 w1 st b p)
    from api_response_origin [OF 3(1)]
    obtain h c' where "server ev h c' = Response st b" "200 \<le> st" "st < 300"
      "url c' = ''/auth/login''" by (auto simp: post_def)
    with sc 3(2) have "p_user p \<noteq> None"
      unfolding server_contractual_def by blast
    with 3(3) show ?thesis by (auto simp: user_invariant_def update_defs)
  qed
next
  case (Register em pw nm)
  let ?c = "post ''/auth/register'' ([(''email'', em), (''password'', pw)] @
        (case nm of None \<Rightarrow> [] | Some x \<Rightarrow> [(''name'', x)]))"
  have b: "user_invariant (begin_auth w)"
    using inv by (auto simp: user_invariant_def update_defs)
  from run Register obtain r where
    "finish_auth ''Registration failed'' (response_data (api n ev ?c (begin_auth w)))
       = Some (w', r)"
    by (auto simp: register_def authService_register_def)
  then show ?thesis
  proof (cases rule: finish_auth_cases)
    case (1 w1 e)
    then show ?thesis by (simp add: user_invariant_def update_defs)
  next
    case (2 w1 st b)
    then show ?thesis by (simp add: user_invariant_def update_defs)
  next
    case (3 w1 st b p)
    from api_response_origin [OF 3(1)]
    obtain h c' where "server ev h c' = Response st b" "200 \<le> st" "st < 300"
      "url c' = ''/auth/register''" by (auto simp: post_def)
    with sc 3(2) have "p_user p \<noteq> None"
      unfolding server_contractual_def by blast
    with 3(3) show ?thesis by (auto simp: user_invariant_def update_defs)
  qed
next
  case RefreshToken
  with run obtain q where "refreshToken n ev w = Some (w', q)" by auto
  with user_invariant_pipeline [OF sc inv quiet, of n undefined w' undefined q]
  show ?thesis by blast
qed (use inv run x in \<open>auto simp: user_invariant_def update_defs\<close>)

lemma session_token_invariant:
  "server_contractual ev \<Longrightarrow> token_invariant w \<Longrightarrow> session n ev cs w = Some w'
     \<Longrightarrow> token_invariant w'"
  by (induction cs arbitrary: w) (auto split: option.splits dest: invoke_token_invariant)

lemma session_user_invariant:
  "server_contractual ev \<Longrightarrow> user_invariant w \<Longrightarrow> \<forall>i. \<not> list_ex is_CallSetToken (during ev i)
     \<Longrightarrow> \<not> list_ex is_DoSetToken cs \<Longrightarrow> session n ev cs w = Some w'
     \<Longrightarrow> user_invariant w'"
proof (induction cs arbitrary: w)
  case Nil
  then show ?case by simp
next
  case (Cons x xs)
  from Cons.prems(5) obtain w1 where 1: "invoke n ev x w = Some w1"
    and 2: "session n ev xs w1 = Some w'" by (auto split: option.splits)
  from Cons.prems(4) have nx: "\<not> is_DoSetToken x" and nxs: "\<not> list_ex is_DoSetToken xs" by simp_all
  from invoke_user_invariant [OF Cons.prems(1,2,3) nx 1] have "user_invariant w1" .
  from Cons.IH [OF Cons.prems(1) this Cons.prems(3) nxs 2] show ?case .
qed


lemma backend_contractual: "server_contractual backend"
  by (auto simp: server_contractual_def backend_def enveloped_def empty_body_def
        split: if_splits)

text \<open>
  C3 (as the code has it). In every state reached from the initial logged-out state by a
  sequence of calls of the store's operations (login, register, logout, refreshToken,
  setUser, setToken, clearError) and restarts on the snapshot, under a server that keeps
  the HTTP contract, \<open>isAuthenticated\<close> implies that the token is present; it implies that
  the user is present too as long as \<open>setToken\<close> is called neither in the sequence nor by
  another task.
\<close>

theorem authenticated_session_invariant:
  assumes "server_contractual ev"
      and "session n ev cs initialWorld = Some w"
  shows "(isAuthenticated (state w) \<longrightarrow> token (state w) \<noteq> None)
       \<and> ((\<forall>i. \<not> list_ex is_CallSetToken (during ev i)) \<longrightarrow> \<not> list_ex is_DoSetToken cs \<longrightarrow>
            isAuthenticated (state w) \<longrightarrow> user (state w) \<noteq> None)"
proof -
  have "token_invariant initialWorld" "user_invariant initialWorld"
    by (simp_all add: token_invariant_def user_invariant_def initialWorld_def initialState_def)
  then show ?thesis
    using session_token_invariant [OF assms(1) _ assms(2)]
      session_user_invariant [OF assms(1) _ _ _ assms(2)]
    by (auto simp: token_invariant_def user_invariant_def)
qed

theorem authenticated_session_invariant_witness:
  "server_contractual backend
   \<and> session 2 backend [Login ''a@x.com'' ''pw'', RefreshToken, DoClearError, Reload]
         initialWorld = Some reloaded
   \<and> (\<forall>i. \<not> list_ex is_CallSetToken (during backend i))
   \<and> \<not> list_ex is_DoSetToken [Login ''a@x.com'' ''pw'', RefreshToken, DoClearError, Reload]
   \<and> isAuthenticated (state reloaded)
   \<and> token (state reloaded) \<noteq> None
   \<and> user (state reloaded) \<noteq> None"
proof -
  let ?cs = "[Login ''a@x.com'' ''pw'', RefreshToken, DoClearError, Reload]"
  have h: "session 2 backend ?cs initialWorld = Some reloaded" by code_simp
  have q: "\<forall>i. \<not> list_ex is_CallSetToken (during backend i)" by (simp add: backend_def)
  have n: "\<not> list_ex is_DoSetToken ?cs" by simp
  have a: "isAuthenticated (state reloaded)" by code_simp
  show ?thesis
    using authenticated_session_invariant [OF backend_contractual h] h q n a backend_contractual
    by blast
qed

text \<open>
  The claim as stated fails at \<open>setToken\<close>, which sets \<open>isAuthenticated\<close> and leaves the user
  alone: called on the initial state, it gives an authenticated state without a user.
\<close>

theorem setToken_without_user:
  "session 0 backend [DoSetToken ''T''] initialWorld
     = Some \<lparr>state = \<lparr>user = None, token = Some ''T'', isAuthenticated = True,
                       isLoading = False, error = None\<rparr>,
             storage = Some \<lparr>s_user = None, s_token = Some ''T'', s_isAuthenticated = True\<rparr>,
             wire = []\<rparr>"
  by code_simp

section \<open>Logout, clearError and the persisted snapshot\<close>

text \<open>
  C6. Whatever the prior state, \<open>logout\<close> leaves the store with \<open>isAuthenticated\<close> false,
  no token, no user, \<open>isLoading\<close> false and no error, and the \<^verbatim>\<open>auth-storage\<close> entry erased;
  it takes no environment and puts nothing on the wire, so no network call is involved.
\<close>

theorem logout_clears_session:
  "state (logout w) = \<lparr>user = None, token = None, isAuthenticated = False,
                        isLoading = False, error = None\<rparr>
   \<and> storage (logout w) = None
   \<and> wire (logout w) = wire w"
  by (simp add: logout_def set_state_def)

text \<open>
  C10. Whatever the prior state, \<open>clearError\<close> sets the stored error to absent and leaves
  user, token, \<open>isAuthenticated\<close> and \<open>isLoading\<close> as they were.
\<close>

theorem clearError_frame:
  "error (state (clearError w)) = None
   \<and> user (state (clearError w)) = user (state w)
   \<and> token (state (clearError w)) = token (state w)
   \<and> isAuthenticated (state (clearError w)) = isAuthenticated (state w)
   \<and> isLoading (state (clearError w)) = isLoading (state w)"
  by (simp add: clearError_def set_state_def)

text \<open>
  C8. The persisted snapshot of a state is exactly its triple user, token,
  \<open>isAuthenticated\<close>. A store started afresh on the snapshot written by a \<^verbatim>\<open>set\<close> has the same
  triple, and its \<open>isLoading\<close> and \<open>error\<close> are those of the initial state, not those of the
  state that was written.
\<close>

theorem snapshot_round_trip:
  "storage (set_state f w) = Some \<lparr>s_user = user (f (state w)), s_token = token (f (state w)),
                                   s_isAuthenticated = isAuthenticated (f (state w))\<rparr>
   \<and> partialize (rehydrate (storage (set_state f w))) = partialize (f (state w))
   \<and> user (rehydrate (Some (partialize s))) = user s
   \<and> token (rehydrate (Some (partialize s))) = token s
   \<and> isAuthenticated (rehydrate (Some (partialize s))) = isAuthenticated s
   \<and> isLoading (rehydrate (Some (partialize s))) = False
   \<and> error (rehydrate (Some (partialize s))) = None"
  by (simp add: set_state_def partialize_def rehydrate_def initialState_def)

end
